theory Spec2Isabelle
  imports Complex_Main "HOL-Library.Word"
begin

unbundle bit_operations_syntax

section \<open>Data model of tmx.go\<close>

text \<open>
  A shallow embedding of the TMX decoding core of tilepix: the payload decoders, GID
  resolution and map assembly of \<open>tmx.go\<close>, \<open>decodePoints\<close>, and the shape queries
  of \<open>Object\<close>. The Go types are embedded as follows.
  \<^item> \<open>GID\<close> and \<open>ID\<close> are \<open>uint32\<close>: 32-bit words. A \<open>byte\<close> is an 8-bit word.
  \<^item> Go's \<open>int\<close> (map width and height, the \<open>infinite\<close> attribute) is a 64-bit signed
    integer, as on the 64-bit platforms: a HOL \<open>int\<close> between \<open>-2^63\<close> and \<open>2^63 - 1\<close>, with the products and
    sums of the length tests and of the index computation wrapped around (\<open>int_mul\<close>,
    \<open>int_add\<close>). A loop counter that runs up to a bound (\<open>x < width\<close>, \<open>y < height\<close>)
    cannot overflow when it is incremented; the read offset \<open>j\<close> starts at 0 and only
    grows by 4 below the length of a slice, and is a \<open>nat\<close>.
  \<^item> A slice is a list; a list that stands for a Go slice has fewer than \<open>2^63\<close>
    elements, and \<open>len\<close> is its length as an \<open>int\<close>.
  \<^item> A \<open>string\<close> and the raw \<open>[]byte\<close> payload are lists of 8-bit characters.
  \<^item> Every error value of the package is a constructor of \<open>error\<close>, as are the
    \<open>NumError\<close> of \<open>strconv\<close>, the errors of the other library readers and a run-time
    panic; a function returning \<open>(T, error)\<close> returns \<open>error + T\<close>, \<open>Inl\<close> carrying
    the error.
  \<^item> A \<open>*Tileset\<close> obtained as \<open>&m.Tilesets[i]\<close> is the index \<open>i\<close>; the nil pointer is
    \<open>None\<close>. Two such pointers are equal exactly when the indices are. \<open>Layer.Tileset\<close>
    has no XML tag, so the XML decoder fills it from a \<open>Tileset\<close> child element of the
    layer when there is one: such a pointer, to a tileset outside \<open>m.Tilesets\<close>, is an
    index beyond the list.
  \<^item> A \<open>*DecodedTile\<close> is the tile it points to. Every tile that \<open>decodeGID\<close>
    allocates has \<open>Nil = false\<close>, so a tile equals \<open>NilTile\<close> exactly when the pointer
    is the shared sentinel.
  \<^item> Fields that only the renderer reads (sprites, batches, opacity, properties, images,
    the parent back-pointer) are left out of the records.
\<close>

type_synonym byte = "8 word"
type_synonym GID = "32 word"
type_synonym ID = "32 word"

datatype strconv_err = ErrSyntax | ErrRange

datatype error =
    UnknownEncodingError
  | UnknownCompressionError
  | InvalidDecodedDataLenError
  | InvalidGIDError
  | InvalidPointsFieldError
  | InfiniteMapError
  | ErrInvalidObjectType
  | NumError string string strconv_err
  | StdlibError string
  | RuntimePanic string

text \<open>
  Arithmetic on Go's 64-bit \<open>int\<close>: the result of a product or a sum is reduced to the
  range \<open>-2^63 .. 2^63 - 1\<close> (two's complement wrap-around). \<open>fits_int\<close> says that an
  integer is in that range, so that no wrap-around takes place.
\<close>

definition wrap64 :: "int \<Rightarrow> int" where
  "wrap64 i = (i + 2 ^ 63) mod 2 ^ 64 - 2 ^ 63"

definition int_mul :: "int \<Rightarrow> int \<Rightarrow> int" where
  "int_mul a b = wrap64 (a * b)"

definition int_add :: "int \<Rightarrow> int \<Rightarrow> int" where
  "int_add a b = wrap64 (a + b)"

definition fits_int :: "int \<Rightarrow> bool" where
  "fits_int i = (- (2 ^ 63) \<le> i \<and> i < 2 ^ 63)"

definition gidHorizontalFlip :: GID where
  "gidHorizontalFlip = 0x80000000"

definition gidVerticalFlip :: GID where
  "gidVerticalFlip = 0x40000000"

definition gidDiagonalFlip :: GID where
  "gidDiagonalFlip = 0x20000000"

definition gidFlip :: GID where
  "gidFlip = gidHorizontalFlip OR gidVerticalFlip OR gidDiagonalFlip"

record DataTile =
  GID :: GID

record Data =
  Encoding :: string
  Compression :: string
  RawData :: string
  DataTiles :: "DataTile list"

record Tileset =
  FirstGID :: GID
  Source :: string
  Name :: string
  TileWidth :: int
  TileHeight :: int
  Spacing :: int
  Margin :: int
  Tilecount :: int
  Columns :: int

record DecodedTile =
  ID :: ID
  Tileset :: "nat option"
  HorizontalFlip :: bool
  VerticalFlip :: bool
  DiagonalFlip :: bool
  Nil_flag :: bool

record Layer =
  Name :: string
  Visible :: bool
  Data :: Data
  DecodedTiles :: "DecodedTile list"
  Tileset :: "nat option"
  Empty :: bool

record Map =
  Version :: string
  Orientation :: string
  Width :: int
  Height :: int
  TileWidth :: int
  TileHeight :: int
  Tilesets :: "Tileset list"
  Layers :: "Layer list"
  Infinite :: int

record Point =
  X :: int
  Y :: int

text \<open>
  The standard-library readers the package calls are parameters of the model: the XML
  decoder, \<open>bytes.TrimSpace\<close>, and \<open>ioutil.ReadAll\<close> over the base64 decoder alone or
  wrapped in the gzip or zlib reader. Each returns the bytes read or the library's error.
\<close>

record stdlib =
  xml_Decode :: "string \<Rightarrow> error + Map"
  bytes_TrimSpace :: "string \<Rightarrow> string"
  base64_ReadAll :: "string \<Rightarrow> error + byte list"
  gzip_base64_ReadAll :: "string \<Rightarrow> error + byte list"
  zlib_base64_ReadAll :: "string \<Rightarrow> error + byte list"

section \<open>GID resolution\<close>

text \<open>\<open>NilTile = &DecodedTile{Nil: true}\<close>: every other field has its zero value.\<close>

definition NilTile :: DecodedTile where
  "NilTile = \<lparr>ID = 0, DecodedTile.Tileset = None, HorizontalFlip = False,
     VerticalFlip = False, DiagonalFlip = False, Nil_flag = True\<rparr>"

definition IsNil :: "DecodedTile \<Rightarrow> bool" where
  "IsNil t = Nil_flag t"

text \<open>
  The loop \<open>for i := len(m.Tilesets) - 1; i >= 0; i--\<close> of \<open>Map.decodeGID\<close>. The counter
  of the model is \<open>i + 1\<close>, the number of tilesets not yet looked at.
\<close>

fun decodeGID_loop :: "Tileset list \<Rightarrow> GID \<Rightarrow> GID \<Rightarrow> nat \<Rightarrow> error + DecodedTile" where
  "decodeGID_loop ts gid gidBare 0 = Inl InvalidGIDError"
| "decodeGID_loop ts gid gidBare (Suc i) =
     (if FirstGID (ts ! i) \<le> gidBare then
        Inr \<lparr>ID = gidBare - FirstGID (ts ! i),
             DecodedTile.Tileset = Some i,
             HorizontalFlip = (gid AND gidHorizontalFlip \<noteq> 0),
             VerticalFlip = (gid AND gidVerticalFlip \<noteq> 0),
             DiagonalFlip = (gid AND gidDiagonalFlip \<noteq> 0),
             Nil_flag = False\<rparr>
      else decodeGID_loop ts gid gidBare i)"

text \<open>\<open>gidBare := gid &^ gidFlip\<close> (AND NOT).\<close>

definition gidBare :: "GID \<Rightarrow> GID" where
  "gidBare gid = gid AND NOT gidFlip"

definition decodeGID :: "Map \<Rightarrow> GID \<Rightarrow> error + DecodedTile" where
  "decodeGID m gid =
     (if gid = 0 then Inr NilTile
      else decodeGID_loop (Tilesets m) gid (gidBare gid) (length (Tilesets m)))"

section \<open>Strings and numbers of the standard library\<close>

text \<open>
  \<open>strings.Split(s, sep)\<close> for a separator of one byte, the only kind the package passes
  (\<open>","\<close> and \<open>" "\<close>): the pieces between the separators, in order; always at least one
  piece, and \<open>[""]\<close> for the empty string.
\<close>

fun Split :: "string \<Rightarrow> char \<Rightarrow> string list" where
  "Split [] sep = [[]]"
| "Split (c # cs) sep =
     (if c = sep then [] # Split cs sep
      else (case Split cs sep of [] \<Rightarrow> [[c]] | p # ps \<Rightarrow> (c # p) # ps))"

definition isDigit :: "char \<Rightarrow> bool" where
  "isDigit c = (48 \<le> (of_char c :: nat) \<and> (of_char c :: nat) \<le> 57)"

definition digitVal :: "char \<Rightarrow> nat" where
  "digitVal c = of_char c - 48"

text \<open>
  \<open>strconv.ParseUint(s, 10, bitSize)\<close>. The bytes are read left to right: a byte that is
  not a decimal digit is a syntax error, a value above \<open>2^bitSize - 1\<close> a range error,
  whichever comes first; the empty string is a syntax error. The \<open>NumError\<close> carries the
  function's name and the string.
\<close>

fun ParseUint_loop :: "nat \<Rightarrow> string \<Rightarrow> nat \<Rightarrow> strconv_err + nat" where
  "ParseUint_loop maxVal [] n = Inr n"
| "ParseUint_loop maxVal (c # cs) n =
     (if \<not> isDigit c then Inl ErrSyntax
      else if maxVal < n * 10 + digitVal c then Inl ErrRange
      else ParseUint_loop maxVal cs (n * 10 + digitVal c))"

definition ParseUint :: "string \<Rightarrow> nat \<Rightarrow> error + nat" where
  "ParseUint s bitSize =
     (if s = [] then Inl (NumError ''ParseUint'' s ErrSyntax)
      else (case ParseUint_loop (2 ^ bitSize - 1) s 0 of
              Inl e \<Rightarrow> Inl (NumError ''ParseUint'' s e)
            | Inr n \<Rightarrow> Inr n))"

text \<open>
  \<open>strconv.Atoi(s)\<close> on a 64-bit \<open>int\<close>: an optional sign, then \<open>ParseUint\<close> on the rest
  with 64 bits; a syntax error is returned as it is, and a magnitude outside
  \<open>-2^63 .. 2^63 - 1\<close> is a range error.
\<close>

definition Atoi :: "string \<Rightarrow> error + int" where
  "Atoi s0 =
     (if s0 = [] then Inl (NumError ''Atoi'' s0 ErrSyntax)
      else let neg = (hd s0 = CHR ''-'');
               s = (if hd s0 = CHR ''+'' \<or> hd s0 = CHR ''-'' then tl s0 else s0)
           in if s = [] then Inl (NumError ''Atoi'' s0 ErrSyntax)
              else (case ParseUint_loop (2 ^ 64 - 1) s 0 of
                      Inl ErrSyntax \<Rightarrow> Inl (NumError ''Atoi'' s0 ErrSyntax)
                    | Inl ErrRange \<Rightarrow> Inl (NumError ''Atoi'' s0 ErrRange)
                    | Inr un \<Rightarrow>
                        if \<not> neg \<and> 2 ^ 63 \<le> un then Inl (NumError ''Atoi'' s0 ErrRange)
                        else if neg \<and> 2 ^ 63 < un then Inl (NumError ''Atoi'' s0 ErrRange)
                        else Inr (if neg then - int un else int un)))"

section \<open>Payload decoding\<close>

text \<open>
  \<open>Data.decodeBase64\<close>: the switch on the compression attribute chooses the reader that
  \<open>ioutil.ReadAll\<close> drains; an error of \<open>gzip.NewReader\<close>, \<open>zlib.NewReader\<close> or
  \<open>ReadAll\<close> is returned as it is.
\<close>

definition decodeBase64 :: "stdlib \<Rightarrow> Data \<Rightarrow> error + byte list" where
  "decodeBase64 lib d =
     (let rawData = bytes_TrimSpace lib (RawData d)
      in if Compression d = ''gzip'' then gzip_base64_ReadAll lib rawData
         else if Compression d = ''zlib'' then zlib_base64_ReadAll lib rawData
         else if Compression d = [] then base64_ReadAll lib rawData
         else Inl UnknownCompressionError)"

text \<open>
  \<open>Data.decodeCSV\<close>. \<open>cleaner\<close> keeps a rune when it is a digit or a comma and drops it
  (returns -1, here \<open>None\<close>) otherwise; \<open>strings.Map\<close> applies it to every rune. A digit
  or a comma is a single byte that occurs in no longer UTF-8 sequence, so mapping bytes
  gives the same string.
\<close>

definition cleaner :: "char \<Rightarrow> char option" where
  "cleaner r = (if isDigit r \<or> r = CHR '','' then Some r else None)"

definition strings_Map :: "(char \<Rightarrow> char option) \<Rightarrow> string \<Rightarrow> string" where
  "strings_Map f s = List.map_filter f s"

fun decodeCSV_loop :: "string list \<Rightarrow> error + GID list" where
  "decodeCSV_loop [] = Inr []"
| "decodeCSV_loop (s # str) =
     (case ParseUint s 32 of
        Inl err \<Rightarrow> Inl err
      | Inr d \<Rightarrow> (case decodeCSV_loop str of
                    Inl err \<Rightarrow> Inl err
                  | Inr gids \<Rightarrow> Inr (word_of_nat d # gids)))"

definition decodeCSV :: "Data \<Rightarrow> error + GID list" where
  "decodeCSV d =
     (let rawDataClean = strings_Map cleaner (RawData d);
          str = Split rawDataClean (CHR '','')
      in decodeCSV_loop str)"

definition decodeLayerXML :: "Layer \<Rightarrow> int \<Rightarrow> int \<Rightarrow> error + GID list" where
  "decodeLayerXML l width height =
     (if int (length (DataTiles (Data l))) \<noteq> int_mul width height
        then Inl InvalidDecodedDataLenError
      else Inr (map GID (DataTiles (Data l))))"

definition decodeLayerCSV :: "Layer \<Rightarrow> int \<Rightarrow> int \<Rightarrow> error + GID list" where
  "decodeLayerCSV l width height =
     (case decodeCSV (Data l) of
        Inl err \<Rightarrow> Inl err
      | Inr gids \<Rightarrow>
          if int (length gids) \<noteq> int_mul width height then Inl InvalidDecodedDataLenError
          else Inr gids)"

text \<open>
  The GID read at offset \<open>j\<close>:
  \<open>GID(dataBytes[j]) + GID(dataBytes[j+1])<<8 + GID(dataBytes[j+2])<<16 + GID(dataBytes[j+3])<<24\<close>
  (in Go a shift binds tighter than the sum).
\<close>

definition gid_at :: "byte list \<Rightarrow> nat \<Rightarrow> GID" where
  "gid_at dataBytes j =
     ucast (dataBytes ! j) + push_bit 8 (ucast (dataBytes ! (j + 1))) +
     push_bit 16 (ucast (dataBytes ! (j + 2))) + push_bit 24 (ucast (dataBytes ! (j + 3)))"

text \<open>
  The two nested loops of \<open>Layer.decodeLayerBase64\<close>, the inner one over \<open>x\<close> and the
  outer one over \<open>y\<close>, threading the read offset \<open>j\<close> and the slice \<open>gids\<close>. An index
  outside \<open>dataBytes\<close> or \<open>gids\<close> is Go's run-time panic; the index \<open>y*width+x\<close> is
  computed in Go's \<open>int\<close>.
\<close>

function decodeLayerBase64_x :: "byte list \<Rightarrow> int \<Rightarrow> int \<Rightarrow> int \<Rightarrow> nat \<Rightarrow> GID list \<Rightarrow>
    error + nat \<times> GID list" where
  "decodeLayerBase64_x dataBytes width y x j gids =
     (if x < width then
        (if length dataBytes \<le> j + 3 then Inl (RuntimePanic ''index out of range'')
         else if int_add (int_mul y width) x < 0 \<or>
                 int (length gids) \<le> int_add (int_mul y width) x
           then Inl (RuntimePanic ''index out of range'')
         else decodeLayerBase64_x dataBytes width y (x + 1) (j + 4)
                (gids[nat (int_add (int_mul y width) x) := gid_at dataBytes j]))
      else Inr (j, gids))"
  by pat_completeness auto
termination
  by (relation "measure (\<lambda>(dataBytes, width, y, x, j, gids). nat (width - x))") auto

function decodeLayerBase64_y :: "byte list \<Rightarrow> int \<Rightarrow> int \<Rightarrow> int \<Rightarrow> nat \<Rightarrow> GID list \<Rightarrow>
    error + nat \<times> GID list" where
  "decodeLayerBase64_y dataBytes width height y j gids =
     (if y < height then
        (case decodeLayerBase64_x dataBytes width y 0 j gids of
           Inl e \<Rightarrow> Inl e
         | Inr (j', gids') \<Rightarrow> decodeLayerBase64_y dataBytes width height (y + 1) j' gids')
      else Inr (j, gids))"
  by pat_completeness auto
termination
  by (relation "measure (\<lambda>(dataBytes, width, height, y, j, gids). nat (height - y))") auto

text \<open>
  \<open>Layer.decodeLayerBase64\<close>. The length test compares \<open>len(dataBytes)\<close> with
  \<open>width*height*4\<close>, computed in Go's \<open>int\<close>. \<open>make([]GID, width*height)\<close> panics when
  the length is negative or when its size in bytes, four times the length, is beyond any
  allocation (it is when that size does not fit an \<open>int\<close>; below that, the size is
  \<open>len(dataBytes)\<close> by the length test, the size of a slice that exists).
\<close>

definition decodeLayerBase64 :: "stdlib \<Rightarrow> Layer \<Rightarrow> int \<Rightarrow> int \<Rightarrow> error + GID list" where
  "decodeLayerBase64 lib l width height =
     (case decodeBase64 lib (Data l) of
        Inl err \<Rightarrow> Inl err
      | Inr dataBytes \<Rightarrow>
          if int (length dataBytes) \<noteq> int_mul (int_mul width height) 4
            then Inl InvalidDecodedDataLenError
          else if int_mul width height < 0 \<or> 2 ^ 63 \<le> 4 * int_mul width height
            then Inl (RuntimePanic ''makeslice: len out of range'')
          else (case decodeLayerBase64_y dataBytes width height 0 0
                       (replicate (nat (int_mul width height)) 0) of
                  Inl e \<Rightarrow> Inl e
                | Inr (j, gids) \<Rightarrow> Inr gids))"

definition decode :: "stdlib \<Rightarrow> Layer \<Rightarrow> int \<Rightarrow> int \<Rightarrow> error + GID list" where
  "decode lib l width height =
     (if Encoding (Data l) = ''csv'' then decodeLayerCSV l width height
      else if Encoding (Data l) = ''base64'' then decodeLayerBase64 lib l width height
      else if Encoding (Data l) = [] then decodeLayerXML l width height
      else Inl UnknownEncodingError)"

section \<open>Map assembly\<close>

text \<open>
  \<open>Map.decodeLayers\<close>. The inner loop resolves the GIDs of one layer in order and stops
  at the first error; the outer loop decodes the layers in order, storing the resolved
  tiles in \<open>l.DecodedTiles\<close>, and stops at the first error. The Go function mutates the
  layers behind \<open>m.Layers\<close>; the model returns the map with the updated layers.
\<close>

fun decodeLayers_tiles :: "Map \<Rightarrow> GID list \<Rightarrow> error + DecodedTile list" where
  "decodeLayers_tiles m [] = Inr []"
| "decodeLayers_tiles m (gid # gids) =
     (case decodeGID m gid of
        Inl err \<Rightarrow> Inl err
      | Inr decTile \<Rightarrow> (case decodeLayers_tiles m gids of
                          Inl err \<Rightarrow> Inl err
                        | Inr tiles \<Rightarrow> Inr (decTile # tiles)))"

fun decodeLayers_loop :: "stdlib \<Rightarrow> Map \<Rightarrow> Layer list \<Rightarrow> error + Layer list" where
  "decodeLayers_loop lib m [] = Inr []"
| "decodeLayers_loop lib m (l # ls) =
     (case decode lib l (Width m) (Height m) of
        Inl err \<Rightarrow> Inl err
      | Inr gids \<Rightarrow> (case decodeLayers_tiles m gids of
                       Inl err \<Rightarrow> Inl err
                     | Inr tiles \<Rightarrow> (case decodeLayers_loop lib m ls of
                                        Inl err \<Rightarrow> Inl err
                                      | Inr ls' \<Rightarrow> Inr (l\<lparr>DecodedTiles := tiles\<rparr> # ls'))))"

definition decodeLayers :: "stdlib \<Rightarrow> Map \<Rightarrow> error + Map" where
  "decodeLayers lib m =
     (case decodeLayers_loop lib m (Layers m) of
        Inl err \<Rightarrow> Inl err
      | Inr ls \<Rightarrow> Inr (m\<lparr>Layers := ls\<rparr>))"

text \<open>
  \<open>getTileset\<close>: the loop over \<open>l.DecodedTiles\<close> with the running \<open>tileset\<close> pointer,
  returning \<open>(tileset, isEmpty, usesMultipleTilesets)\<close>.
\<close>

fun getTileset_loop :: "DecodedTile list \<Rightarrow> nat option \<Rightarrow> nat option \<times> bool \<times> bool" where
  "getTileset_loop [] tileset =
     (if tileset = None then (None, True, False) else (tileset, False, False))"
| "getTileset_loop (tile # tiles) tileset =
     (if \<not> Nil_flag tile then
        (if tileset = None then getTileset_loop tiles (DecodedTile.Tileset tile)
         else if tileset \<noteq> DecodedTile.Tileset tile then (tileset, False, True)
         else getTileset_loop tiles tileset)
      else getTileset_loop tiles tileset)"

definition getTileset :: "Layer \<Rightarrow> nat option \<times> bool \<times> bool" where
  "getTileset l = getTileset_loop (DecodedTiles l) None"

text \<open>
  \<open>Read\<close>. \<open>Read_layer\<close> is one iteration of its loop over the layers: a layer that uses
  several tilesets is left as it is (\<open>continue\<close>).
\<close>

definition Read_layer :: "Layer \<Rightarrow> Layer" where
  "Read_layer l =
     (case getTileset l of
        (tileset, isEmpty, usesMultipleTilesets) \<Rightarrow>
          if usesMultipleTilesets then l
          else l\<lparr>Empty := isEmpty, Layer.Tileset := tileset\<rparr>)"

definition Read :: "stdlib \<Rightarrow> string \<Rightarrow> error + Map" where
  "Read lib r =
     (case xml_Decode lib r of
        Inl err \<Rightarrow> Inl err
      | Inr m \<Rightarrow>
          if Infinite m = 1 then Inl InfiniteMapError
          else (case decodeLayers lib m of
                  Inl err \<Rightarrow> Inl err
                | Inr m' \<Rightarrow> Inr (m'\<lparr>Layers := map Read_layer (Layers m')\<rparr>)))"

section \<open>Points of polygons and polylines\<close>

text \<open>
  \<open>decodePoints\<close>. \<open>decodePoints_point\<close> is the body of its loop for one point string;
  the loop stops at the first point string that fails and returns that error.
\<close>

definition decodePoints_point :: "string \<Rightarrow> error + Point" where
  "decodePoints_point pointString =
     (let coordStrings = Split pointString (CHR '','')
      in if length coordStrings \<noteq> 2 then Inl InvalidPointsFieldError
         else (case Atoi (coordStrings ! 0) of
                 Inl err \<Rightarrow> Inl err
               | Inr x \<Rightarrow> (case Atoi (coordStrings ! 1) of
                             Inl err \<Rightarrow> Inl err
                           | Inr y \<Rightarrow> Inr \<lparr>Point.X = x, Point.Y = y\<rparr>)))"

fun decodePoints_loop :: "string list \<Rightarrow> error + Point list" where
  "decodePoints_loop [] = Inr []"
| "decodePoints_loop (pointString # pointStrings) =
     (case decodePoints_point pointString of
        Inl err \<Rightarrow> Inl err
      | Inr p \<Rightarrow> (case decodePoints_loop pointStrings of
                    Inl err \<Rightarrow> Inl err
                  | Inr points \<Rightarrow> Inr (p # points)))"

definition decodePoints :: "string \<Rightarrow> error + Point list" where
  "decodePoints s = decodePoints_loop (Split s (CHR '' ''))"

section \<open>Objects and their shapes\<close>

text \<open>
  Modelled from the spec: the declarations of \<open>ObjectType\<close> and of
  \<open>ErrInvalidObjectType\<close> are not among the sources. The five shape kinds are the ones
  the spec lists (polygon, polyline, ellipse, point, rectangle), under the names
  \<open>Object.hydrateType\<close> uses, and they are pairwise distinct.

  \<open>float64\<close> is any type \<open>'f\<close> with zero, addition, division and numerals (the sort of the syntactic classes only); nothing is
  assumed about its arithmetic. \<open>pixel.Vec\<close>, \<open>pixel.Circle\<close> and \<open>pixel.Rect\<close> are
  the values built by \<open>pixel.V\<close>, \<open>pixel.C\<close> and \<open>pixel.R\<close>. A Go function returning a
  value together with an error returns the pair of the value and \<open>Some\<close> error, or
  \<open>None\<close> for \<open>nil\<close>.
\<close>

datatype ObjectType = EllipseObj | PolygonObj | PolylineObj | RectangleObj | PointObj

datatype 'f Vec = pixel_V 'f 'f

datatype 'f Circle = pixel_C "'f Vec" 'f

datatype 'f Rect = pixel_R 'f 'f 'f 'f

definition pixel_ZV :: "'f::zero Vec" where
  "pixel_ZV = pixel_V 0 0"

record Polygon =
  Points :: string

record PolyLine =
  Points :: string

record 'f Object =
  Name :: string
  Type :: string
  X :: 'f
  Y :: 'f
  Width :: 'f
  Height :: 'f
  GID :: int
  Visible :: bool
  Polygon :: "Polygon option"
  PolyLine :: "PolyLine option"
  Ellipse :: "unit option"
  Point :: "unit option"
  objectType :: ObjectType

definition GetType :: "'f Object \<Rightarrow> ObjectType" where
  "GetType ob = objectType ob"

definition GetEllipse :: "('f::{zero,numeral,inverse}) Object \<Rightarrow> 'f Circle \<times> error option" where
  "GetEllipse ob =
     (if GetType ob \<noteq> EllipseObj then (pixel_C pixel_ZV 0, Some ErrInvalidObjectType)
      else let radius = (Object.Width ob + Object.Height ob) / 4;
               centre = pixel_V (Object.X ob + (Object.Width ob / 2))
                                (Object.Y ob + (Object.Height ob / 2))
           in (pixel_C centre radius, None))"

definition GetPoint :: "('f::{zero,numeral,inverse}) Object \<Rightarrow> 'f Vec \<times> error option" where
  "GetPoint ob =
     (if GetType ob \<noteq> PointObj then (pixel_ZV, Some ErrInvalidObjectType)
      else (pixel_V (Object.X ob) (Object.Y ob), None))"

definition GetRect :: "('f::{zero,numeral,inverse}) Object \<Rightarrow> 'f Rect \<times> error option" where
  "GetRect ob =
     (if GetType ob \<noteq> RectangleObj then (pixel_R 0 0 0 0, Some ErrInvalidObjectType)
      else (pixel_R (Object.X ob) (Object.Y ob) (Object.X ob + Object.Width ob)
              (Object.Y ob + Object.Height ob), None))"

definition hydrateType :: "'f Object \<Rightarrow> 'f Object" where
  "hydrateType ob =
     (if Object.Polygon ob \<noteq> None then ob\<lparr>objectType := PolygonObj\<rparr>
      else if Object.PolyLine ob \<noteq> None then ob\<lparr>objectType := PolylineObj\<rparr>
      else if Object.Ellipse ob \<noteq> None then ob\<lparr>objectType := EllipseObj\<rparr>
      else if Object.Point ob \<noteq> None then ob\<lparr>objectType := PointObj\<rparr>
      else ob\<lparr>objectType := RectangleObj\<rparr>)"

section \<open>Example values\<close>

text \<open>A map with two tilesets, first GIDs 1 and 100, used in the examples.\<close>

definition example_tileset :: "GID \<Rightarrow> Tileset" where
  "example_tileset g = \<lparr>FirstGID = g, Source = [], Tileset.Name = [], Tileset.TileWidth = 16,
     Tileset.TileHeight = 16, Spacing = 0, Margin = 0, Tilecount = 64, Columns = 8\<rparr>"

definition example_map :: "Layer list \<Rightarrow> Map" where
  "example_map ls = \<lparr>Version = [], Orientation = ''orthogonal'', Width = 2, Height = 2,
     Map.TileWidth = 16, Map.TileHeight = 16,
     Tilesets = [example_tileset 1, example_tileset 100], Layers = ls, Infinite = 0\<rparr>"

text \<open>
  A stand-in for the standard library, for the examples only: a decoder of padded
  standard base64, a \<open>TrimSpace\<close> for ASCII white space, an XML decoder that returns a
  given map, and gzip and zlib readers that always fail.
\<close>

definition example_b64_index :: "char \<Rightarrow> nat option" where
  "example_b64_index c =
     (let n = (of_char c :: nat)
      in if 65 \<le> n \<and> n \<le> 90 then Some (n - 65)
         else if 97 \<le> n \<and> n \<le> 122 then Some (n - 71)
         else if 48 \<le> n \<and> n \<le> 57 then Some (n + 4)
         else if n = 43 then Some 62
         else if n = 47 then Some 63
         else None)"

fun example_base64 :: "string \<Rightarrow> error + byte list" where
  "example_base64 (a # b # c # d # rest) =
     (case (example_b64_index a, example_b64_index b) of
        (Some p, Some q) \<Rightarrow>
          if c = CHR ''='' \<and> d = CHR ''='' \<and> rest = [] then Inr [of_nat ((p * 64 + q) div 16)]
          else (case example_b64_index c of
                  None \<Rightarrow> Inl (StdlibError ''illegal base64 data'')
                | Some r \<Rightarrow>
                    if d = CHR ''='' \<and> rest = [] then
                      Inr [of_nat (((p * 64 + q) * 64 + r) div 1024),
                           of_nat (((p * 64 + q) * 64 + r) div 4 mod 256)]
                    else (case example_b64_index d of
                            None \<Rightarrow> Inl (StdlibError ''illegal base64 data'')
                          | Some s \<Rightarrow>
                              (case example_base64 rest of
                                 Inl e \<Rightarrow> Inl e
                               | Inr bs \<Rightarrow>
                                   Inr (of_nat ((((p * 64 + q) * 64 + r) * 64 + s) div 65536) #
                                        of_nat ((((p * 64 + q) * 64 + r) * 64 + s) div 256 mod 256) #
                                        of_nat ((((p * 64 + q) * 64 + r) * 64 + s) mod 256) # bs))))
      | _ \<Rightarrow> Inl (StdlibError ''illegal base64 data''))"
| "example_base64 [] = Inr []"
| "example_base64 _ = Inl (StdlibError ''illegal base64 data'')"

definition example_space :: "char \<Rightarrow> bool" where
  "example_space c = ((of_char c :: nat) \<in> {9, 10, 11, 12, 13, 32})"

definition example_TrimSpace :: "string \<Rightarrow> string" where
  "example_TrimSpace s = rev (dropWhile example_space (rev (dropWhile example_space s)))"

definition example_lib :: "Map \<Rightarrow> stdlib" where
  "example_lib m = \<lparr>xml_Decode = (\<lambda>r. Inr m), bytes_TrimSpace = example_TrimSpace,
     base64_ReadAll = example_base64,
     gzip_base64_ReadAll = (\<lambda>s. Inl (StdlibError ''gzip: invalid header'')),
     zlib_base64_ReadAll = (\<lambda>s. Inl (StdlibError ''zlib: invalid header''))\<rparr>"

definition example_layer :: "string \<Rightarrow> string \<Rightarrow> DataTile list \<Rightarrow> Layer" where
  "example_layer enc raw tiles =
     \<lparr>Layer.Name = ''Tile Layer 1'', Layer.Visible = True,
      Data = \<lparr>Encoding = enc, Compression = [], RawData = raw, DataTiles = tiles\<rparr>,
      DecodedTiles = [], Layer.Tileset = None, Empty = False\<rparr>"




definition example_ellipse :: "real Object" where
  "example_ellipse = \<lparr>Object.Name = ''pond'', Type = [], Object.X = 10, Object.Y = 20,
     Object.Width = 4, Object.Height = 6, Object.GID = 7, Object.Visible = True,
     Polygon = None, PolyLine = None, Ellipse = Some (), Point = None,
     objectType = RectangleObj\<rparr>"

section \<open>Payload formats\<close>





section \<open>Resolution of non-zero GIDs\<close>

lemma not_gidFlip: "NOT gidFlip = (mask 29 :: GID)"
  by (simp add: gidFlip_def gidHorizontalFlip_def gidVerticalFlip_def gidDiagonalFlip_def
      mask_eq_exp_minus_1)

lemma gidBare_bits: "bit (gidBare gid) n \<longleftrightarrow> bit gid n \<and> n < 29"
  by (auto simp add: gidBare_def not_gidFlip bit_and_iff bit_mask_iff)

lemma decodeGID_loop_none:
  "(\<forall>i<n. \<not> FirstGID (ts ! i) \<le> b) \<Longrightarrow> decodeGID_loop ts gid b n = Inl InvalidGIDError"
  by (induction n) simp_all

lemma decodeGID_loop_owner:
  "i < n \<Longrightarrow> FirstGID (ts ! i) \<le> b \<Longrightarrow> (\<forall>k. i < k \<and> k < n \<longrightarrow> \<not> FirstGID (ts ! k) \<le> b) \<Longrightarrow>
   decodeGID_loop ts gid b n =
     Inr \<lparr>ID = b - FirstGID (ts ! i), DecodedTile.Tileset = Some i,
          HorizontalFlip = (gid AND gidHorizontalFlip \<noteq> 0),
          VerticalFlip = (gid AND gidVerticalFlip \<noteq> 0),
          DiagonalFlip = (gid AND gidDiagonalFlip \<noteq> 0),
          Nil_flag = False\<rparr>"
proof (induction n)
  case 0
  then show ?case by simp
next
  case (Suc n)
  show ?case
  proof (cases "i = n")
    case True
    with Suc.prems show ?thesis by simp
  next
    case False
    with Suc.prems have "i < n" and "\<not> FirstGID (ts ! n) \<le> b" by auto
    with Suc show ?thesis by simp
  qed
qed

lemma decodeGID_loop_not_nil:
  "decodeGID_loop ts gid b n = Inr t \<Longrightarrow> \<not> Nil_flag t \<and> (\<exists>i<n. DecodedTile.Tileset t = Some i)"
  by (induction n) (auto split: if_splits intro: less_SucI)

lemma decodeGID_nonzero_not_nil:
  "gid \<noteq> 0 \<Longrightarrow> decodeGID m gid = Inr t \<Longrightarrow>
     \<not> Nil_flag t \<and> (\<exists>i<length (Tilesets m). DecodedTile.Tileset t = Some i)"
  by (simp add: decodeGID_def decodeGID_loop_not_nil)

text \<open>
  C2. For a non-zero GID the bare GID is the GID with its top three bits cleared. The
  tileset list is scanned from its last element downward: the tileset at the largest index
  \<open>i\<close> with \<open>FirstGID \<le> bare GID\<close> owns the tile, and the resolved tile has local ID
  bare GID minus that \<open>FirstGID\<close> (no wrap-around). When no tileset qualifies, in
  particular when the list is empty, the result is \<open>InvalidGIDError\<close>, not a tile.
\<close>

theorem decodeGID_owner:
  assumes "gid \<noteq> 0"
  shows "(\<forall>n. bit (gidBare gid) n \<longleftrightarrow> bit gid n \<and> n < 29)
    \<and> (\<forall>i<length (Tilesets m).
          FirstGID (Tilesets m ! i) \<le> gidBare gid \<and>
          (\<forall>k. i < k \<and> k < length (Tilesets m) \<longrightarrow> gidBare gid < FirstGID (Tilesets m ! k)) \<longrightarrow>
          (\<exists>t. decodeGID m gid = Inr t \<and> DecodedTile.Tileset t = Some i \<and> \<not> IsNil t \<and>
               ID t = gidBare gid - FirstGID (Tilesets m ! i) \<and>
               unat (ID t) = unat (gidBare gid) - unat (FirstGID (Tilesets m ! i)) \<and>
               unat (FirstGID (Tilesets m ! i)) \<le> unat (gidBare gid)))
    \<and> ((\<forall>i<length (Tilesets m). gidBare gid < FirstGID (Tilesets m ! i)) \<longrightarrow>
          decodeGID m gid = Inl InvalidGIDError)
    \<and> (Tilesets m = [] \<longrightarrow> decodeGID m gid = Inl InvalidGIDError)"
proof (intro conjI allI impI)
  fix n show "bit (gidBare gid) n \<longleftrightarrow> bit gid n \<and> n < 29"
    by (rule gidBare_bits)
next
  fix i
  assume i: "i < length (Tilesets m)"
    and own: "FirstGID (Tilesets m ! i) \<le> gidBare gid \<and>
      (\<forall>k. i < k \<and> k < length (Tilesets m) \<longrightarrow> gidBare gid < FirstGID (Tilesets m ! k))"
  from own have le: "FirstGID (Tilesets m ! i) \<le> gidBare gid"
    and above: "\<forall>k. i < k \<and> k < length (Tilesets m) \<longrightarrow> \<not> FirstGID (Tilesets m ! k) \<le> gidBare gid"
    by (auto simp: not_le)
  have res: "decodeGID m gid =
      Inr \<lparr>ID = gidBare gid - FirstGID (Tilesets m ! i), DecodedTile.Tileset = Some i,
          HorizontalFlip = (gid AND gidHorizontalFlip \<noteq> 0),
          VerticalFlip = (gid AND gidVerticalFlip \<noteq> 0),
          DiagonalFlip = (gid AND gidDiagonalFlip \<noteq> 0),
          Nil_flag = False\<rparr>"
    using assms decodeGID_loop_owner [OF i le above] by (simp add: decodeGID_def)
  show "\<exists>t. decodeGID m gid = Inr t \<and> DecodedTile.Tileset t = Some i \<and> \<not> IsNil t \<and>
      ID t = gidBare gid - FirstGID (Tilesets m ! i) \<and>
      unat (ID t) = unat (gidBare gid) - unat (FirstGID (Tilesets m ! i)) \<and>
      unat (FirstGID (Tilesets m ! i)) \<le> unat (gidBare gid)"
    using le by (simp add: res IsNil_def unat_sub word_le_nat_alt)
next
  assume "\<forall>i<length (Tilesets m). gidBare gid < FirstGID (Tilesets m ! i)"
  then have "\<forall>i<length (Tilesets m). \<not> FirstGID (Tilesets m ! i) \<le> gidBare gid"
    by (simp add: not_le)
  then show "decodeGID m gid = Inl InvalidGIDError"
    using assms by (simp add: decodeGID_def decodeGID_loop_none)
next
  assume "Tilesets m = []"
  then show "decodeGID m gid = Inl InvalidGIDError"
    using assms by (simp add: decodeGID_def)
qed

text \<open>
  In the example map, GID \<open>0x80000069\<close> (horizontal flip, bare GID 105) belongs to the
  second tileset with local ID 5.
\<close>

theorem decodeGID_owner_witness:
  "(0x80000069 :: GID) \<noteq> 0 \<and>
   (\<exists>t. decodeGID (example_map []) 0x80000069 = Inr t \<and> DecodedTile.Tileset t = Some 1 \<and>
        \<not> IsNil t \<and> unat (ID t) = 5)"
proof -
  have nz: "(0x80000069 :: GID) \<noteq> 0" by simp
  have bare: "gidBare 0x80000069 = 105"
    by (simp add: gidBare_def not_gidFlip mask_eq_exp_minus_1)
  have "\<exists>t. decodeGID (example_map []) 0x80000069 = Inr t \<and> DecodedTile.Tileset t = Some 1 \<and>
        \<not> IsNil t \<and>
        ID t = gidBare 0x80000069 - FirstGID (Tilesets (example_map []) ! 1) \<and>
        unat (ID t) = unat (gidBare 0x80000069) - unat (FirstGID (Tilesets (example_map []) ! 1)) \<and>
        unat (FirstGID (Tilesets (example_map []) ! 1)) \<le> unat (gidBare 0x80000069)"
    using decodeGID_owner [OF nz, of "example_map []", THEN conjunct2, THEN conjunct1,
        rule_format, of 1]
    by (simp add: bare example_map_def example_tileset_def)
  then show ?thesis
    by (auto simp: bare example_map_def example_tileset_def)
qed

text \<open>
  C3. GID 0 resolves to the nil-tile sentinel whatever the tileset list is, \<open>IsNil\<close> holds
  of the sentinel, and a tile resolved from a non-zero GID is never nil (so it is not the
  sentinel).
\<close>

theorem decodeGID_zero_nil:
  "decodeGID m 0 = Inr NilTile \<and> IsNil NilTile \<and>
   (\<forall>gid t. gid \<noteq> 0 \<and> decodeGID m gid = Inr t \<longrightarrow> \<not> IsNil t \<and> t \<noteq> NilTile)"
proof (intro conjI allI impI)
  show "decodeGID m 0 = Inr NilTile" by (simp add: decodeGID_def)
  show "IsNil NilTile" by (simp add: IsNil_def NilTile_def)
next
  fix gid t
  assume h: "gid \<noteq> 0 \<and> decodeGID m gid = Inr t"
  then have "\<not> Nil_flag t" using decodeGID_nonzero_not_nil by blast
  then show "\<not> IsNil t" by (simp add: IsNil_def)
  from \<open>\<not> Nil_flag t\<close> show "t \<noteq> NilTile" by (auto simp: NilTile_def)
qed

theorem decodeGID_zero_nil_witness:
  "decodeGID (example_map []) 0 = Inr NilTile \<and> IsNil NilTile \<and>
   (\<exists>t. (1 :: GID) \<noteq> 0 \<and> decodeGID (example_map []) 1 = Inr t \<and> \<not> IsNil t \<and> t \<noteq> NilTile)"
proof -
  have r: "decodeGID (example_map []) 1 =
    Inr \<lparr>ID = 0, DecodedTile.Tileset = Some 0, HorizontalFlip = False,
         VerticalFlip = False, DiagonalFlip = False, Nil_flag = False\<rparr>"
    by (simp add: decodeGID_def gidBare_def not_gidFlip mask_eq_exp_minus_1 example_map_def
        example_tileset_def gidHorizontalFlip_def gidVerticalFlip_def gidDiagonalFlip_def
        word_le_nat_alt)
  have nz: "(1 :: GID) \<noteq> 0" by simp
  from decodeGID_zero_nil [of "example_map []"]
  have z: "decodeGID (example_map []) 0 = Inr NilTile" and n: "IsNil NilTile"
    and a: "\<forall>gid t. gid \<noteq> 0 \<and> decodeGID (example_map []) gid = Inr t \<longrightarrow>
              \<not> IsNil t \<and> t \<noteq> NilTile"
    by blast+
  from a nz r z n show ?thesis by blast
qed

text \<open>
  C10. A GID that is not 0 but whose bare value is 0 (only flag bits set) never resolves
  to the nil sentinel; when every tileset has a first GID above 0 it is rejected with
  \<open>InvalidGIDError\<close>.
\<close>

theorem decodeGID_flags_only:
  assumes "gid \<noteq> 0" and "gidBare gid = 0"
  shows "decodeGID m gid \<noteq> Inr NilTile \<and>
    ((\<forall>ts \<in> set (Tilesets m). 0 < FirstGID ts) \<longrightarrow> decodeGID m gid = Inl InvalidGIDError)"
proof (intro conjI impI)
  show "decodeGID m gid \<noteq> Inr NilTile"
    using decodeGID_nonzero_not_nil [OF assms(1), of m NilTile] by (auto simp: NilTile_def)
next
  assume "\<forall>ts \<in> set (Tilesets m). 0 < FirstGID ts"
  then have "\<forall>i<length (Tilesets m). \<not> FirstGID (Tilesets m ! i) \<le> gidBare gid"
    using assms(2) by (metis nth_mem not_le)
  then show "decodeGID m gid = Inl InvalidGIDError"
    using assms(1) by (simp add: decodeGID_def decodeGID_loop_none)
qed

theorem decodeGID_flags_only_witness:
  "(0x80000000 :: GID) \<noteq> 0 \<and> gidBare 0x80000000 = 0 \<and>
   map FirstGID (Tilesets (example_map [])) = [1, 100] \<and>
   decodeGID (example_map []) 0x80000000 \<noteq> Inr NilTile \<and>
   decodeGID (example_map []) 0x80000000 = Inl InvalidGIDError"
proof -
  have nz: "(0x80000000 :: GID) \<noteq> 0" by simp
  have bare: "gidBare 0x80000000 = 0"
    by (simp add: gidBare_def not_gidFlip mask_eq_exp_minus_1)
  have pos: "\<forall>ts \<in> set (Tilesets (example_map [])). 0 < FirstGID ts"
    by (simp add: example_map_def example_tileset_def)
  have firsts: "map FirstGID (Tilesets (example_map [])) = [1, 100]"
    by (simp add: example_map_def example_tileset_def)
  show ?thesis
    using decodeGID_flags_only [OF nz bare, of "example_map []"] nz bare pos firsts by blast
qed

section \<open>Payload decoding: lengths and order\<close>

declare decodeLayerBase64_x.simps [simp del]
declare decodeLayerBase64_y.simps [simp del]

lemma wrap64_fits: "fits_int i \<Longrightarrow> wrap64 i = i"
proof -
  assume "fits_int i"
  then have "0 \<le> i + 2 ^ 63" and "i + 2 ^ 63 < 2 ^ 64"
    by (simp_all add: fits_int_def)
  then have "(i + 2 ^ 63) mod 2 ^ 64 = i + 2 ^ 63"
    by (rule mod_pos_pos_trivial)
  then show ?thesis by (simp add: wrap64_def)
qed

lemma int_mul_fits: "fits_int (a * b) \<Longrightarrow> int_mul a b = a * b"
  by (simp add: int_mul_def wrap64_fits)

lemma int_add_fits: "fits_int (a + b) \<Longrightarrow> int_add a b = a + b"
  by (simp add: int_add_def wrap64_fits)

lemma fits_int_quarter: "fits_int (p * 4) \<Longrightarrow> fits_int p"
  by (simp add: fits_int_def)

lemma decodeLayerBase64_x_inv:
  assumes "0 \<le> x" and "x \<le> width" and "0 \<le> y * width"
    and "y * width + width \<le> int (length gids)"
    and "int (length dataBytes) = 4 * int (length gids)"
    and "int j = 4 * (y * width + x)"
    and "int (length gids) < 2 ^ 63"
  shows "\<exists>gids'. decodeLayerBase64_x dataBytes width y x j gids =
            Inr (nat (4 * (y * width + width)), gids') \<and>
          length gids' = length gids \<and>
          (\<forall>k<length gids. gids' ! k =
             (if y * width + x \<le> int k \<and> int k < y * width + width
              then gid_at dataBytes (4 * k) else gids ! k))"
  using assms
proof (induction dataBytes width y x j gids rule: decodeLayerBase64_x.induct)
  case (1 dataBytes width y x j gids)
  show ?case
  proof (cases "x < width")
    case False
    with "1.prems" have "x = width" by simp
    with "1.prems" show ?thesis
      by (subst decodeLayerBase64_x.simps) (auto simp: nat_eq_iff)
  next
    case True
    let ?i = "nat (y * width + x)"
    let ?g = "gids[?i := gid_at dataBytes j]"
    from True "1.prems" have "int j + 3 < int (length dataBytes)"
      by (simp add: algebra_simps)
    then have a: "\<not> length dataBytes \<le> j + 3" by linarith
    from True "1.prems" have b: "\<not> (y * width + x < 0 \<or> int (length gids) \<le> y * width + x)"
      by linarith
    from True "1.prems" have "fits_int (y * width)" and "fits_int (y * width + x)"
      unfolding fits_int_def by linarith+
    then have wi: "int_add (int_mul y width) x = y * width + x"
      by (simp add: int_mul_fits int_add_fits)
    have b': "\<not> (int_add (int_mul y width) x < 0 \<or>
        int (length gids) \<le> int_add (int_mul y width) x)"
      unfolding wi by (rule b)
    have "int j = int (4 * ?i)" using "1.prems" by (simp add: algebra_simps)
    then have j: "j = 4 * ?i" by (simp only: of_nat_eq_iff)
    from "1.IH" [OF True a b', unfolded wi] True "1.prems"
    obtain gids' where r: "decodeLayerBase64_x dataBytes width y (x + 1) (j + 4) ?g =
            Inr (nat (4 * (y * width + width)), gids')"
      and l: "length gids' = length ?g"
      and v: "\<forall>k<length ?g. gids' ! k =
             (if y * width + (x + 1) \<le> int k \<and> int k < y * width + width
              then gid_at dataBytes (4 * k) else ?g ! k)"
      by (auto simp: algebra_simps)
    have "decodeLayerBase64_x dataBytes width y x j gids =
            Inr (nat (4 * (y * width + width)), gids')"
      using True a b r by (subst decodeLayerBase64_x.simps) (simp add: wi)
    moreover have "length gids' = length gids" using l by simp
    moreover have "\<forall>k<length gids. gids' ! k =
             (if y * width + x \<le> int k \<and> int k < y * width + width
              then gid_at dataBytes (4 * k) else gids ! k)"
    proof (intro allI impI)
      fix k assume k: "k < length gids"
      show "gids' ! k = (if y * width + x \<le> int k \<and> int k < y * width + width
              then gid_at dataBytes (4 * k) else gids ! k)"
      proof (cases "k = ?i")
        case True
        with v k b j \<open>x < width\<close> show ?thesis by (simp add: nat_less_iff)
      next
        case False
        then have "int k \<noteq> y * width + x" using b by linarith
        with v k False show ?thesis by (auto simp: nth_list_update)
      qed
    qed
    ultimately show ?thesis by blast
  qed
qed


lemma decodeLayerBase64_y_empty_rows:
  "width \<le> 0 \<Longrightarrow> decodeLayerBase64_y dataBytes width height y j gids = Inr (j, gids)"
proof (induction "nat (height - y)" arbitrary: y)
  case 0
  then show ?case by (subst decodeLayerBase64_y.simps) simp
next
  case (Suc n)
  from Suc.hyps(2) have n: "n = nat (height - (y + 1))" by linarith
  have x: "decodeLayerBase64_x dataBytes width y 0 j gids = Inr (j, gids)"
    using Suc.prems by (subst decodeLayerBase64_x.simps) simp
  show ?case
    using Suc.hyps(1) [OF n Suc.prems] x by (subst decodeLayerBase64_y.simps) simp
qed

lemma decodeLayerBase64_y_inv:
  assumes "0 \<le> width" and "0 \<le> y" and "y \<le> height"
    and "int (length gids) = width * height"
    and "int (length dataBytes) = 4 * int (length gids)"
    and "int j = 4 * (y * width)"
    and "int (length gids) < 2 ^ 63"
  shows "\<exists>j' gids'. decodeLayerBase64_y dataBytes width height y j gids = Inr (j', gids') \<and>
          length gids' = length gids \<and>
          (\<forall>k<length gids. gids' ! k =
             (if y * width \<le> int k then gid_at dataBytes (4 * k) else gids ! k))"
  using assms
proof (induction "nat (height - y)" arbitrary: y j gids)
  case 0
  then have y: "y = height" by simp
  have "\<not> y * width \<le> int k" if "k < length gids" for k
    using that 0(5) y by (simp add: mult.commute)
  with y show ?case
    by (subst decodeLayerBase64_y.simps) auto
next
  case (Suc n)
  from Suc.hyps(2) have n: "n = nat (height - (y + 1))" and lt: "y < height" by linarith+
  have base: "0 \<le> y * width" using Suc.prems by simp
  have "(y + 1) * width \<le> height * width"
    using lt Suc.prems(1) by (intro mult_right_mono) auto
  then have fit: "y * width + width \<le> int (length gids)"
    using Suc.prems(4) by (simp add: algebra_simps)
  have j0: "int j = 4 * (y * width + 0)" using Suc.prems by simp
  from decodeLayerBase64_x_inv [OF _ Suc.prems(1) base fit Suc.prems(5) j0 Suc.prems(7)]
  obtain gids1 where
    r1: "decodeLayerBase64_x dataBytes width y 0 j gids = Inr (nat (4 * (y * width + width)), gids1)"
    and l1: "length gids1 = length gids"
    and v1: "\<forall>k<length gids. gids1 ! k =
             (if y * width + 0 \<le> int k \<and> int k < y * width + width
              then gid_at dataBytes (4 * k) else gids ! k)"
    by auto
  have j1: "int (nat (4 * (y * width + width))) = 4 * ((y + 1) * width)"
    using base Suc.prems(1) by (simp add: algebra_simps)
  have "\<exists>j' gids'.
      decodeLayerBase64_y dataBytes width height (y + 1) (nat (4 * (y * width + width))) gids1 =
           Inr (j', gids') \<and>
      length gids' = length gids1 \<and>
      (\<forall>k<length gids1. gids' ! k =
             (if (y + 1) * width \<le> int k then gid_at dataBytes (4 * k) else gids1 ! k))"
    by (rule Suc.hyps(1)) (use n lt Suc.prems l1 j1 in auto)
  then obtain j' gids' where
    r2: "decodeLayerBase64_y dataBytes width height (y + 1) (nat (4 * (y * width + width))) gids1 =
           Inr (j', gids')"
    and l2: "length gids' = length gids1"
    and v2: "\<forall>k<length gids1. gids' ! k =
             (if (y + 1) * width \<le> int k then gid_at dataBytes (4 * k) else gids1 ! k)"
    by auto
  have "decodeLayerBase64_y dataBytes width height y j gids = Inr (j', gids')"
    using lt r1 r2 by (subst decodeLayerBase64_y.simps) simp
  moreover have "length gids' = length gids" using l1 l2 by simp
  moreover have "\<forall>k<length gids. gids' ! k =
             (if y * width \<le> int k then gid_at dataBytes (4 * k) else gids ! k)"
  proof (intro allI impI)
    fix k assume k: "k < length gids"
    have e: "(y + 1) * width = y * width + width" by (simp add: algebra_simps)
    from v1 k have a: "gids1 ! k = (if y * width \<le> int k \<and> int k < y * width + width
              then gid_at dataBytes (4 * k) else gids ! k)" by simp
    from v2 k l1 have b: "gids' ! k =
        (if y * width + width \<le> int k then gid_at dataBytes (4 * k) else gids1 ! k)"
      by (simp add: e)
    show "gids' ! k = (if y * width \<le> int k then gid_at dataBytes (4 * k) else gids ! k)"
      using a b Suc.prems(1) by auto
  qed
  ultimately show ?case by blast
qed

lemma decodeLayerBase64_products:
  assumes "int (length dataBytes) = width * height * 4"
    and "int (length dataBytes) < 2 ^ 63"
  shows "int_mul width height = width * height"
    and "int_mul (int_mul width height) 4 = width * height * 4"
    and "0 \<le> width * height" and "4 * (width * height) < 2 ^ 63"
proof -
  from assms have f4: "fits_int (width * height * 4)"
    unfolding fits_int_def by linarith
  then have f: "fits_int (width * height)" by (rule fits_int_quarter)
  then show m: "int_mul width height = width * height" by (rule int_mul_fits)
  from f4 show "int_mul (int_mul width height) 4 = width * height * 4"
    unfolding m by (rule int_mul_fits)
  from assms show "0 \<le> width * height" and "4 * (width * height) < 2 ^ 63"
    by linarith+
qed

lemma decodeLayerBase64_decoded:
  assumes "decodeBase64 lib (Data l) = Inr dataBytes"
    and "int (length dataBytes) = width * height * 4"
    and "int (length dataBytes) < 2 ^ 63"
  shows "\<exists>gids. decodeLayerBase64 lib l width height = Inr gids \<and>
           int (length gids) = width * height \<and>
           (0 \<le> width \<and> 0 \<le> height \<longrightarrow>
              (\<forall>k<length gids. gids ! k = gid_at dataBytes (4 * k))) \<and>
           (\<forall>x y. 0 \<le> x \<and> x < width \<and> 0 \<le> y \<and> y < height \<longrightarrow>
              gids ! nat (y * width + x) = gid_at dataBytes (4 * nat (y * width + x)))"
proof -
  let ?n = "nat (width * height)"
  let ?z = "replicate ?n (0 :: GID)"
  note pr = decodeLayerBase64_products [OF assms(2,3)]
  have nonneg: "0 \<le> width * height" by (rule pr(3))
  have m4: "int_mul (width * height) 4 = width * height * 4" using pr(1,2) by simp
  have make: "\<not> (width * height < 0 \<or> 2 ^ 63 \<le> 4 * (width * height))"
    using pr(3,4) by simp
  have len: "int (length ?z) = width * height" using nonneg by simp
  have bound: "int (length ?z) < 2 ^ 63" using len pr(4) nonneg by linarith
  show ?thesis
  proof (cases "width \<le> 0")
    case True
    then have "decodeLayerBase64 lib l width height = Inr ?z"
      using assms(1,2) make
      by (simp add: decodeLayerBase64_def pr(1) m4 decodeLayerBase64_y_empty_rows)
    moreover have "length ?z = 0" if "0 \<le> width \<and> 0 \<le> height"
      using that True by simp
    ultimately show ?thesis using True nonneg by auto
  next
    case False
    then have w: "0 < width" by simp
    with nonneg have h: "0 \<le> height" by (simp add: zero_le_mult_iff)
    have bytes: "int (length dataBytes) = 4 * int (length ?z)" using assms(2) nonneg by simp
    from decodeLayerBase64_y_inv [of width 0 height ?z dataBytes 0, OF _ _ h len bytes _ bound] w
    obtain j' gids' where
      r: "decodeLayerBase64_y dataBytes width height 0 0 ?z = Inr (j', gids')"
      and l: "length gids' = length ?z"
      and v: "\<forall>k<length ?z. gids' ! k = (if 0 * width \<le> int k then gid_at dataBytes (4 * k) else ?z ! k)"
      by auto
    have res: "decodeLayerBase64 lib l width height = Inr gids'"
      using assms(1,2) make r by (simp add: decodeLayerBase64_def pr(1) m4)
    have cells: "\<forall>k<length gids'. gids' ! k = gid_at dataBytes (4 * k)"
      using v l by simp
    have "gids' ! nat (y * width + x) = gid_at dataBytes (4 * nat (y * width + x))"
      if "0 \<le> x" "x < width" "0 \<le> y" "y < height" for x y
    proof -
      have "(y + 1) * width \<le> height * width"
        using that w by (intro mult_right_mono) auto
      then have "y * width + x < width * height"
        using that by (simp add: algebra_simps)
      moreover have "0 \<le> y * width" using that w by simp
      ultimately have "nat (y * width + x) < length ?z" using that by simp
      with v show ?thesis by simp
    qed
    with res l len cells show ?thesis by auto
  qed
qed

lemma unat_gid_at:
  "unat (gid_at bs j) =
     unat (bs ! j) + 256 * unat (bs ! (j + 1)) + 65536 * unat (bs ! (j + 2)) +
     16777216 * unat (bs ! (j + 3))"
proof -
  have b: "unat (w :: byte) < 256" for w using unsigned_less [of w, where 'a = nat] by simp
  have u: "unat (ucast (w :: byte) :: GID) = unat w" for w
    by (simp add: unsigned_ucast_eq take_bit_nat_eq_self_iff) (use b [of w] in simp)
  show ?thesis
    using b [of "bs ! j"] b [of "bs ! (j + 1)"] b [of "bs ! (j + 2)"] b [of "bs ! (j + 3)"]
    by (simp add: gid_at_def push_bit_eq_mult unat_word_ariths u)
qed

lemma example_base64_payload:
  "decodeBase64 (example_lib m) (Data (example_layer ''base64'' '' AQAAAAIAAAADAACABAEAAA== '' [])) =
     Inr [1, 0, 0, 0, 2, 0, 0, 0, 3, 0, 0, 128, 4, 1, 0, 0]"
  by (simp add: decodeBase64_def example_lib_def example_layer_def example_TrimSpace_def
      example_space_def example_b64_index_def)

lemma grid_index_bound:
  fixes x y width height :: int
  assumes "0 \<le> x" "x < width" "0 \<le> y" "y < height"
  shows "0 \<le> y * width + x \<and> y * width + x < width * height"
proof -
  have "(y + 1) * width \<le> height * width"
    using assms by (intro mult_right_mono) auto
  then have "y * width + x < width * height"
    using assms by (simp add: algebra_simps)
  moreover have "0 \<le> y * width" using assms by simp
  ultimately show ?thesis using assms by simp
qed

text \<open>
  C4. When the bytes read from a base64 payload (with no, gzip or zlib compression) are
  exactly width * height * 4 many, the layer decodes, and for every cell \<open>x < width\<close>,
  \<open>y < height\<close> the GID at index \<open>y * width + x\<close> is the unsigned 32-bit number whose
  little-endian bytes are the four bytes from offset \<open>4 * (y * width + x)\<close> on. Both
  indices are inside their sequences. The bytes are a Go slice, of fewer than \<open>2^63\<close>
  elements; the product width * height * 4 is the one of the integers, and since it is
  the length of a slice, Go's length test computes it without wrap-around.
\<close>

theorem decodeLayerBase64_little_endian:
  assumes "decodeBase64 lib (Data l) = Inr dataBytes"
    and "int (length dataBytes) = width * height * 4"
    and "int (length dataBytes) < 2 ^ 63"
  shows "\<exists>gids. decodeLayerBase64 lib l width height = Inr gids \<and>
    (\<forall>x y. 0 \<le> x \<and> x < width \<and> 0 \<le> y \<and> y < height \<longrightarrow>
       nat (y * width + x) < length gids \<and>
       4 * nat (y * width + x) + 3 < length dataBytes \<and>
       unat (gids ! nat (y * width + x)) =
         unat (dataBytes ! (4 * nat (y * width + x))) +
         256 * unat (dataBytes ! (4 * nat (y * width + x) + 1)) +
         65536 * unat (dataBytes ! (4 * nat (y * width + x) + 2)) +
         16777216 * unat (dataBytes ! (4 * nat (y * width + x) + 3)))"
proof -
  from decodeLayerBase64_decoded [OF assms]
  obtain gids where r: "decodeLayerBase64 lib l width height = Inr gids"
    and len: "int (length gids) = width * height"
    and v: "\<forall>x y. 0 \<le> x \<and> x < width \<and> 0 \<le> y \<and> y < height \<longrightarrow>
              gids ! nat (y * width + x) = gid_at dataBytes (4 * nat (y * width + x))"
    by blast
  have "nat (y * width + x) < length gids \<and>
       4 * nat (y * width + x) + 3 < length dataBytes \<and>
       unat (gids ! nat (y * width + x)) =
         unat (dataBytes ! (4 * nat (y * width + x))) +
         256 * unat (dataBytes ! (4 * nat (y * width + x) + 1)) +
         65536 * unat (dataBytes ! (4 * nat (y * width + x) + 2)) +
         16777216 * unat (dataBytes ! (4 * nat (y * width + x) + 3))"
    if c: "0 \<le> x \<and> x < width \<and> 0 \<le> y \<and> y < height" for x y
  proof -
    from c grid_index_bound [of x width y height]
    have b: "0 \<le> y * width + x" "y * width + x < width * height" by auto
    then have i: "nat (y * width + x) < length gids" using len by linarith
    have "4 * int (length gids) = int (length dataBytes)" using assms(2) len by simp
    then have j: "4 * nat (y * width + x) + 3 < length dataBytes" using i by linarith
    from v c have "gids ! nat (y * width + x) = gid_at dataBytes (4 * nat (y * width + x))"
      by blast
    with i j show ?thesis by (simp add: unat_gid_at)
  qed
  with r show ?thesis by blast
qed

lemma replicate_4_zero: "replicate 4 (0 :: GID) = [0, 0, 0, 0]"
  by (simp add: numeral_eq_Suc)

lemma example_base64_layer:
  "decodeLayerBase64 (example_lib m) (example_layer ''base64'' '' AQAAAAIAAAADAACABAEAAA== '' []) 2 2 =
     Inr [1, 2, 0x80000003, 260]"
  by (simp add: decodeLayerBase64_def example_base64_payload replicate_4_zero
      decodeLayerBase64_x.simps decodeLayerBase64_y.simps gid_at_def nth_Cons' list_update_code
      int_mul_def int_add_def wrap64_def)

theorem decodeLayerBase64_little_endian_witness:
  "decodeBase64 (example_lib (example_map []))
      (Data (example_layer ''base64'' '' AQAAAAIAAAADAACABAEAAA== '' [])) =
     Inr [1, 0, 0, 0, 2, 0, 0, 0, 3, 0, 0, 128, 4, 1, 0, 0] \<and>
   int (length [1, 0, 0, 0, 2, 0, 0, 0, 3, 0, 0, 128, 4, 1, 0, 0 :: byte]) = 2 * 2 * 4 \<and>
   int (length [1, 0, 0, 0, 2, 0, 0, 0, 3, 0, 0, 128, 4, 1, 0, 0 :: byte]) < 2 ^ 63 \<and>
   (\<exists>gids. decodeLayerBase64 (example_lib (example_map []))
        (example_layer ''base64'' '' AQAAAAIAAAADAACABAEAAA== '' []) 2 2 = Inr gids \<and>
      unat (gids ! nat (1 * 2 + 0)) = 3 + 256 * 0 + 65536 * 0 + 16777216 * 128)"
proof -
  let ?bs = "[1, 0, 0, 0, 2, 0, 0, 0, 3, 0, 0, 128, 4, 1, 0, 0 :: byte]"
  have p: "decodeBase64 (example_lib (example_map []))
      (Data (example_layer ''base64'' '' AQAAAAIAAAADAACABAEAAA== '' [])) = Inr ?bs"
    by (rule example_base64_payload)
  have n: "int (length ?bs) = 2 * 2 * 4" by simp
  have n2: "int (length ?bs) < 2 ^ 63" by simp
  from decodeLayerBase64_little_endian [OF p n n2]
  obtain gids where r: "decodeLayerBase64 (example_lib (example_map []))
        (example_layer ''base64'' '' AQAAAAIAAAADAACABAEAAA== '' []) 2 2 = Inr gids"
    and v: "\<forall>x y. 0 \<le> x \<and> x < 2 \<and> 0 \<le> y \<and> y < 2 \<longrightarrow>
       nat (y * 2 + x) < length gids \<and>
       4 * nat (y * 2 + x) + 3 < length ?bs \<and>
       unat (gids ! nat (y * 2 + x)) =
         unat (?bs ! (4 * nat (y * 2 + x))) +
         256 * unat (?bs ! (4 * nat (y * 2 + x) + 1)) +
         65536 * unat (?bs ! (4 * nat (y * 2 + x) + 2)) +
         16777216 * unat (?bs ! (4 * nat (y * 2 + x) + 3))"
    by blast
  from v [rule_format, of 0 1]
  have "unat (gids ! nat (1 * 2 + 0)) = 3 + 256 * 0 + 65536 * 0 + 16777216 * 128"
    by simp
  with p n n2 r show ?thesis by blast
qed

lemma ParseUint_loop_bound:
  "ParseUint_loop maxVal s n = Inr r \<Longrightarrow> s \<noteq> [] \<or> n \<le> maxVal \<Longrightarrow> r \<le> maxVal"
proof (induction s arbitrary: n)
  case Nil
  then show ?case by simp
next
  case (Cons c cs)
  from Cons.prems(1) have d: "isDigit c" and le: "n * 10 + digitVal c \<le> maxVal"
    and rest: "ParseUint_loop maxVal cs (n * 10 + digitVal c) = Inr r"
    by (auto split: if_splits)
  from Cons.IH [OF rest] le show ?case by simp
qed

lemma ParseUint_32_unat:
  assumes "ParseUint s 32 = Inr d"
  shows "unat (word_of_nat d :: GID) = d"
proof -
  from assms have "s \<noteq> []" and "ParseUint_loop (2 ^ 32 - 1) s 0 = Inr d"
    by (auto simp: ParseUint_def split: if_splits sum.splits)
  then have "d \<le> 2 ^ 32 - 1" using ParseUint_loop_bound by blast
  then have "d < 2 ^ 32" by simp
  then show ?thesis by (simp add: unat_of_nat take_bit_nat_eq_self)
qed

lemma decodeCSV_loop_order:
  "decodeCSV_loop str = Inr gids \<Longrightarrow>
     length gids = length str \<and>
     (\<forall>i<length str. ParseUint (str ! i) 32 = Inr (unat (gids ! i)))"
proof (induction str arbitrary: gids)
  case Nil
  then show ?case by simp
next
  case (Cons s str)
  from Cons.prems obtain d rest where d: "ParseUint s 32 = Inr d"
    and r: "decodeCSV_loop str = Inr rest" and g: "gids = word_of_nat d # rest"
    by (auto split: sum.splits)
  from Cons.IH [OF r] have l: "length rest = length str"
    and v: "\<forall>i<length str. ParseUint (str ! i) 32 = Inr (unat (rest ! i))" by auto
  have "ParseUint ((s # str) ! i) 32 = Inr (unat (gids ! i))" if "i < length (s # str)" for i
  proof (cases i)
    case 0
    then show ?thesis using d g ParseUint_32_unat [OF d] by simp
  next
    case (Suc k)
    then show ?thesis using that v g by simp
  qed
  with l g show ?case by simp
qed

lemma decodeLayerXML_fits:
  "fits_int (width * height) \<Longrightarrow>
     decodeLayerXML l width height =
       (if int (length (DataTiles (Data l))) = width * height
        then Inr (map DataTile.GID (DataTiles (Data l)))
        else Inl InvalidDecodedDataLenError)"
  by (simp add: decodeLayerXML_def int_mul_fits)

lemma decodeLayerCSV_fits:
  "fits_int (width * height) \<Longrightarrow> decodeCSV (Data l) = Inr gids \<Longrightarrow>
     decodeLayerCSV l width height =
       (if int (length gids) = width * height then Inr gids
        else Inl InvalidDecodedDataLenError)"
  by (simp add: decodeLayerCSV_def int_mul_fits)

lemma decodeLayerBase64_test_fits:
  "fits_int (width * height * 4) \<Longrightarrow> int_mul (int_mul width height) 4 = width * height * 4"
  by (simp add: int_mul_fits fits_int_quarter)

lemma decodeLayerBase64_mismatch:
  "fits_int (width * height * 4) \<Longrightarrow> decodeBase64 lib (Data l) = Inr dataBytes \<Longrightarrow>
   int (length dataBytes) \<noteq> width * height * 4 \<Longrightarrow>
     decodeLayerBase64 lib l width height = Inl InvalidDecodedDataLenError"
  by (simp add: decodeLayerBase64_def decodeLayerBase64_test_fits)

lemma decodeLayerBase64_match:
  assumes "fits_int (width * height * 4)" and "decodeBase64 lib (Data l) = Inr dataBytes"
    and "int (length dataBytes) = width * height * 4"
  shows "\<exists>gids. decodeLayerBase64 lib l width height = Inr gids \<and>
           int (length gids) = width * height \<and>
           (\<forall>x y. 0 \<le> x \<and> x < width \<and> 0 \<le> y \<and> y < height \<longrightarrow>
              gids ! nat (y * width + x) = gid_at dataBytes (4 * nat (y * width + x)))"
proof -
  from assms(1,3) have "int (length dataBytes) < 2 ^ 63" by (simp add: fits_int_def)
  from decodeLayerBase64_decoded [OF assms(2,3) this] show ?thesis by blast
qed

lemma decode_length_fits:
  assumes "decode lib l width height = Inr gids"
    and "fits_int (width * height)"
    and "Encoding (Data l) = ''base64'' \<longrightarrow> fits_int (width * height * 4)"
  shows "int (length gids) = width * height"
proof -
  consider (csv) "Encoding (Data l) = ''csv''" "decodeLayerCSV l width height = Inr gids"
    | (b64) "Encoding (Data l) = ''base64''" "decodeLayerBase64 lib l width height = Inr gids"
    | (xml) "Encoding (Data l) = []" "decodeLayerXML l width height = Inr gids"
    using assms(1) by (auto simp: decode_def split: if_splits)
  then show ?thesis
  proof cases
    case csv
    then show ?thesis
      using assms(2) by (auto simp: decodeLayerCSV_def int_mul_fits split: sum.splits if_splits)
  next
    case b64
    with assms(3) have f: "fits_int (width * height * 4)" by simp
    from b64(2) obtain dataBytes where b: "decodeBase64 lib (Data l) = Inr dataBytes"
      and n: "int (length dataBytes) = width * height * 4"
      by (auto simp: decodeLayerBase64_def decodeLayerBase64_test_fits [OF f]
          split: sum.splits if_splits)
    from decodeLayerBase64_match [OF f b n] b64(2) show ?thesis by auto
  next
    case xml
    then show ?thesis
      using assms(2) by (auto simp: decodeLayerXML_def int_mul_fits split: if_splits)
  qed
qed

lemma example_empty_payload:
  "decodeBase64 (example_lib m) (Data (example_layer ''base64'' [] [])) = Inr []"
  by (simp add: decodeBase64_def example_lib_def example_layer_def example_TrimSpace_def)

text \<open>
  C1, as the claim states it, fails where Go's \<open>int\<close> product wraps around. With width
  and height \<open>2^32\<close> the product is 0 in Go: a structured layer with no tile record
  decodes to the empty sequence without an error, though 0 is not width * height. With
  width \<open>2^62\<close> and height 1 the product times 4 is 0 in Go: an empty base64 payload
  passes the length test, and \<open>make\<close> panics; the result is not the data-length error.
\<close>

theorem decode_length_counterexample:
  "decodeLayerXML (example_layer [] [] []) 4294967296 4294967296 = Inr [] \<and>
   int (length (DataTiles (Data (example_layer [] [] [])))) \<noteq> 4294967296 * 4294967296 \<and>
   decodeBase64 (example_lib (example_map [])) (Data (example_layer ''base64'' [] [])) = Inr [] \<and>
   int (length ([] :: byte list)) \<noteq> 4611686018427387904 * 1 * 4 \<and>
   decodeLayerBase64 (example_lib (example_map [])) (example_layer ''base64'' [] [])
     4611686018427387904 1 = Inl (RuntimePanic ''makeslice: len out of range'')"
proof -
  have t: "DataTiles (Data (example_layer [] [] [])) = []" by (simp add: example_layer_def)
  have x: "decodeLayerXML (example_layer [] [] []) 4294967296 4294967296 = Inr []"
    by (simp add: decodeLayerXML_def t int_mul_def wrap64_def)
  have b: "decodeLayerBase64 (example_lib (example_map [])) (example_layer ''base64'' [] [])
      4611686018427387904 1 = Inl (RuntimePanic ''makeslice: len out of range'')"
    by (simp add: decodeLayerBase64_def example_empty_payload int_mul_def wrap64_def)
  from t x b example_empty_payload [of "example_map []"] show ?thesis by simp
qed

text \<open>
  C1, amended. Provided width * height is in the range of Go's \<open>int\<close> (for base64:
  width * height * 4 is), so that the length test does not wrap around, each of the three
  payload decoders returns width * height GIDs in the order of the payload, or fails.
  Structured: the GIDs of the tile records in document order when their number is
  width * height, the data-length error otherwise. CSV: when the tokens parse, the parsed
  numbers in token order when their number is width * height, the data-length error
  otherwise. Base64: when the bytes are read, the data-length error unless their number
  is width * height * 4, and otherwise width * height GIDs, the one of cell (x, y) at
  index y * width + x read from offset 4 * (y * width + x). Whatever the encoding, a
  sequence that \<open>decode\<close> returns has width * height elements.
\<close>

theorem decode_length:
  "(fits_int (width * height) \<longrightarrow>
      decodeLayerXML l width height =
        (if int (length (DataTiles (Data l))) = width * height
         then Inr (map DataTile.GID (DataTiles (Data l)))
         else Inl InvalidDecodedDataLenError)
      \<and> (\<forall>gids. decodeCSV (Data l) = Inr gids \<longrightarrow>
            decodeLayerCSV l width height =
              (if int (length gids) = width * height then Inr gids
               else Inl InvalidDecodedDataLenError) \<and>
            length gids =
              length (Split (strings_Map cleaner (RawData (Data l))) (CHR '','')) \<and>
            (\<forall>i<length gids.
               ParseUint (Split (strings_Map cleaner (RawData (Data l))) (CHR '','') ! i) 32 =
                 Inr (unat (gids ! i))))
      \<and> (\<forall>gids. Encoding (Data l) \<noteq> ''base64'' \<and> decode lib l width height = Inr gids \<longrightarrow>
            int (length gids) = width * height))
   \<and> (fits_int (width * height * 4) \<longrightarrow>
      (\<forall>dataBytes. decodeBase64 lib (Data l) = Inr dataBytes \<longrightarrow>
         (int (length dataBytes) \<noteq> width * height * 4 \<longrightarrow>
            decodeLayerBase64 lib l width height = Inl InvalidDecodedDataLenError) \<and>
         (int (length dataBytes) = width * height * 4 \<longrightarrow>
            (\<exists>gids. decodeLayerBase64 lib l width height = Inr gids \<and>
               int (length gids) = width * height \<and>
               (\<forall>x y. 0 \<le> x \<and> x < width \<and> 0 \<le> y \<and> y < height \<longrightarrow>
                  gids ! nat (y * width + x) = gid_at dataBytes (4 * nat (y * width + x))))))
      \<and> (\<forall>gids. decode lib l width height = Inr gids \<longrightarrow> int (length gids) = width * height))"
proof (intro conjI allI impI)
  assume "fits_int (width * height)"
  then show "decodeLayerXML l width height =
      (if int (length (DataTiles (Data l))) = width * height
       then Inr (map DataTile.GID (DataTiles (Data l)))
       else Inl InvalidDecodedDataLenError)"
    by (rule decodeLayerXML_fits)
next
  fix gids assume "fits_int (width * height)" "decodeCSV (Data l) = Inr gids"
  then show "decodeLayerCSV l width height =
           (if int (length gids) = width * height then Inr gids
            else Inl InvalidDecodedDataLenError)"
    by (rule decodeLayerCSV_fits)
next
  fix gids assume "decodeCSV (Data l) = Inr gids"
  then show "length gids =
           length (Split (strings_Map cleaner (RawData (Data l))) (CHR '',''))"
    using decodeCSV_loop_order by (simp add: decodeCSV_def)
next
  fix gids i assume c: "decodeCSV (Data l) = Inr gids" and i: "i < length gids"
  from c have "decodeCSV_loop (Split (strings_Map cleaner (RawData (Data l))) (CHR '','')) = Inr gids"
    by (simp add: decodeCSV_def)
  from decodeCSV_loop_order [OF this] i
  show "ParseUint (Split (strings_Map cleaner (RawData (Data l))) (CHR '','') ! i) 32 =
              Inr (unat (gids ! i))"
    by simp
next
  fix gids
  assume "fits_int (width * height)"
    and "Encoding (Data l) \<noteq> ''base64'' \<and> decode lib l width height = Inr gids"
  then show "int (length gids) = width * height"
    using decode_length_fits [of lib l width height gids] by simp
next
  fix dataBytes
  assume "fits_int (width * height * 4)" "decodeBase64 lib (Data l) = Inr dataBytes"
    and "int (length dataBytes) \<noteq> width * height * 4"
  then show "decodeLayerBase64 lib l width height = Inl InvalidDecodedDataLenError"
    by (rule decodeLayerBase64_mismatch)
next
  fix dataBytes
  assume "fits_int (width * height * 4)" "decodeBase64 lib (Data l) = Inr dataBytes"
    and "int (length dataBytes) = width * height * 4"
  then show "\<exists>gids. decodeLayerBase64 lib l width height = Inr gids \<and>
               int (length gids) = width * height \<and>
               (\<forall>x y. 0 \<le> x \<and> x < width \<and> 0 \<le> y \<and> y < height \<longrightarrow>
                  gids ! nat (y * width + x) = gid_at dataBytes (4 * nat (y * width + x)))"
    by (rule decodeLayerBase64_match)
next
  fix gids
  assume f: "fits_int (width * height * 4)" and d: "decode lib l width height = Inr gids"
  from f have "fits_int (width * height)" by (rule fits_int_quarter)
  with d f show "int (length gids) = width * height"
    using decode_length_fits [of lib l width height gids] by simp
qed

lemma example_csv_payload:
  "decodeCSV (Data (example_layer ''csv'' ''1,2, 3,260'' [])) = Inr [1, 2, 3, 260]"
  by (simp add: decodeCSV_def example_layer_def strings_Map_def cleaner_def List.map_filter_def
      ParseUint_def isDigit_def digitVal_def)

theorem decode_length_witness:
  "fits_int (2 * 2) \<and> fits_int (2 * 3) \<and> fits_int (2 * 2 * 4) \<and> fits_int (2 * 3 * 4) \<and>
   decodeLayerXML (example_layer [] [] [\<lparr>DataTile.GID = 1\<rparr>, \<lparr>DataTile.GID = 2\<rparr>, \<lparr>DataTile.GID = 3\<rparr>]) 2 2 =
     Inl InvalidDecodedDataLenError \<and>
   decodeLayerXML (example_layer [] [] [\<lparr>DataTile.GID = 1\<rparr>, \<lparr>DataTile.GID = 2\<rparr>, \<lparr>DataTile.GID = 3\<rparr>,
      \<lparr>DataTile.GID = 260\<rparr>]) 2 2 = Inr [1, 2, 3, 260] \<and>
   decodeLayerCSV (example_layer ''csv'' ''1,2, 3,260'' []) 2 2 = Inr [1, 2, 3, 260] \<and>
   decodeLayerCSV (example_layer ''csv'' ''1,2, 3,260'' []) 2 3 = Inl InvalidDecodedDataLenError \<and>
   decodeLayerBase64 (example_lib (example_map []))
     (example_layer ''base64'' '' AQAAAAIAAAADAACABAEAAA== '' []) 2 3 = Inl InvalidDecodedDataLenError \<and>
   (\<exists>gids. decodeLayerBase64 (example_lib (example_map []))
      (example_layer ''base64'' '' AQAAAAIAAAADAACABAEAAA== '' []) 2 2 = Inr gids \<and>
      int (length gids) = 2 * 2)"
proof -
  let ?lib = "example_lib (example_map [])"
  let ?b = "example_layer ''base64'' '' AQAAAAIAAAADAACABAEAAA== '' []"
  let ?c = "example_layer ''csv'' ''1,2, 3,260'' []"
  let ?bs = "[1, 0, 0, 0, 2, 0, 0, 0, 3, 0, 0, 128, 4, 1, 0, 0 :: byte]"
  have f: "fits_int (2 * 2)" "fits_int (2 * 3)" "fits_int (2 * 2 * 4)" "fits_int (2 * 3 * 4)"
    by (simp_all add: fits_int_def)
  have x3: "decodeLayerXML (example_layer [] [] [\<lparr>DataTile.GID = 1\<rparr>, \<lparr>DataTile.GID = 2\<rparr>,
      \<lparr>DataTile.GID = 3\<rparr>]) 2 2 = Inl InvalidDecodedDataLenError"
    using decode_length [of 2 2 "example_layer [] [] [\<lparr>DataTile.GID = 1\<rparr>, \<lparr>DataTile.GID = 2\<rparr>,
      \<lparr>DataTile.GID = 3\<rparr>]" ?lib] f
    by (simp add: example_layer_def)
  have x4: "decodeLayerXML (example_layer [] [] [\<lparr>DataTile.GID = 1\<rparr>, \<lparr>DataTile.GID = 2\<rparr>,
      \<lparr>DataTile.GID = 3\<rparr>, \<lparr>DataTile.GID = 260\<rparr>]) 2 2 = Inr [1, 2, 3, 260]"
    using decode_length [of 2 2 "example_layer [] [] [\<lparr>DataTile.GID = 1\<rparr>, \<lparr>DataTile.GID = 2\<rparr>,
      \<lparr>DataTile.GID = 3\<rparr>, \<lparr>DataTile.GID = 260\<rparr>]" ?lib] f
    by (simp add: example_layer_def)
  have c4: "decodeLayerCSV ?c 2 2 = Inr [1, 2, 3, 260]"
    using decode_length [of 2 2 ?c ?lib] example_csv_payload f by simp
  have c6: "decodeLayerCSV ?c 2 3 = Inl InvalidDecodedDataLenError"
    using decode_length [of 2 3 ?c ?lib] example_csv_payload f by simp
  have p: "decodeBase64 ?lib (Data ?b) = Inr ?bs" by (rule example_base64_payload)
  have b6: "decodeLayerBase64 ?lib ?b 2 3 = Inl InvalidDecodedDataLenError"
    using decode_length [of 2 3 ?b ?lib] p f by simp
  have b4: "\<exists>gids. decodeLayerBase64 ?lib ?b 2 2 = Inr gids \<and> int (length gids) = 2 * 2"
    using decode_length [of 2 2 ?b ?lib] p f by auto
  from f x3 x4 c4 c6 b6 b4 show ?thesis by blast
qed

section \<open>Loading a map\<close>

text \<open>
  C5. When the decoded document has \<open>infinite = 1\<close>, \<open>Read\<close> returns
  \<open>InfiniteMapError\<close> and no map, whatever the layers and tilesets of the document are.
  The readers that payload decoding would call are not consulted: the result is the same
  for every library with the same XML decoder.
\<close>

theorem Read_infinite:
  assumes "xml_Decode lib r = Inr m" and "Infinite m = 1"
  shows "Read lib r = Inl InfiniteMapError \<and>
    (\<forall>lib'. xml_Decode lib' = xml_Decode lib \<longrightarrow> Read lib' r = Inl InfiniteMapError)"
  using assms by (simp add: Read_def)

text \<open>
  An infinite map whose only layer has an unknown encoding: the flag is reported, not the
  encoding.
\<close>

theorem Read_infinite_witness:
  "xml_Decode (example_lib ((example_map [example_layer ''hex'' [] []])\<lparr>Infinite := 1\<rparr>)) ''<map/>'' =
     Inr ((example_map [example_layer ''hex'' [] []])\<lparr>Infinite := 1\<rparr>) \<and>
   Infinite ((example_map [example_layer ''hex'' [] []])\<lparr>Infinite := 1\<rparr>) = 1 \<and>
   Read (example_lib ((example_map [example_layer ''hex'' [] []])\<lparr>Infinite := 1\<rparr>)) ''<map/>'' =
     Inl InfiniteMapError \<and>
   decodeLayers (example_lib ((example_map [example_layer ''hex'' [] []])\<lparr>Infinite := 1\<rparr>))
     ((example_map [example_layer ''hex'' [] []])\<lparr>Infinite := 1\<rparr>) = Inl UnknownEncodingError"
proof -
  let ?m = "(example_map [example_layer ''hex'' [] []])\<lparr>Infinite := 1\<rparr>"
  have d: "xml_Decode (example_lib ?m) ''<map/>'' = Inr ?m" by (simp add: example_lib_def)
  have i: "Infinite ?m = 1" by simp
  have u: "decodeLayers (example_lib ?m) ?m = Inl UnknownEncodingError"
    by (simp add: decodeLayers_def example_map_def decode_def example_layer_def)
  from Read_infinite [OF d i] d i u show ?thesis by blast
qed

















section \<open>Shape queries on objects\<close>

text \<open>
  C9. Each shape query answers without an error exactly when the object's kind, as
  \<open>GetType\<close> reports it, is the kind the query is for: then it returns the geometry
  computed from the object's position and size, and otherwise it returns
  \<open>ErrInvalidObjectType\<close> (next to the zero geometry). After \<open>hydrateType\<close> the kind is
  the one the optional sub-elements determine: polygon, else polyline, else ellipse,
  else point, else rectangle.
\<close>

theorem Object_shape_queries:
  fixes ob :: "('f::{zero,numeral,inverse}) Object"
  shows "(GetType ob = EllipseObj \<longrightarrow>
        GetEllipse ob =
          (pixel_C (pixel_V (Object.X ob + (Object.Width ob / 2))
                            (Object.Y ob + (Object.Height ob / 2)))
                   ((Object.Width ob + Object.Height ob) / 4), None))
    \<and> (GetType ob \<noteq> EllipseObj \<longrightarrow> snd (GetEllipse ob) = Some ErrInvalidObjectType)
    \<and> (GetType ob = PointObj \<longrightarrow> GetPoint ob = (pixel_V (Object.X ob) (Object.Y ob), None))
    \<and> (GetType ob \<noteq> PointObj \<longrightarrow> snd (GetPoint ob) = Some ErrInvalidObjectType)
    \<and> (GetType ob = RectangleObj \<longrightarrow>
        GetRect ob =
          (pixel_R (Object.X ob) (Object.Y ob) (Object.X ob + Object.Width ob)
                   (Object.Y ob + Object.Height ob), None))
    \<and> (GetType ob \<noteq> RectangleObj \<longrightarrow> snd (GetRect ob) = Some ErrInvalidObjectType)
    \<and> GetType (hydrateType ob) =
        (if Object.Polygon ob \<noteq> None then PolygonObj
         else if Object.PolyLine ob \<noteq> None then PolylineObj
         else if Object.Ellipse ob \<noteq> None then EllipseObj
         else if Object.Point ob \<noteq> None then PointObj
         else RectangleObj)
    \<and> hydrateType ob = ob\<lparr>objectType := GetType (hydrateType ob)\<rparr>"
  by (simp add: GetEllipse_def GetPoint_def GetRect_def GetType_def hydrateType_def)

theorem Object_shape_queries_witness:
  "GetType (hydrateType example_ellipse) = EllipseObj \<and>
   GetEllipse (hydrateType example_ellipse) = (pixel_C (pixel_V 12 23) (5 / 2), None) \<and>
   snd (GetPoint (hydrateType example_ellipse)) = Some ErrInvalidObjectType \<and>
   snd (GetRect (hydrateType example_ellipse)) = Some ErrInvalidObjectType"
proof -
  let ?ob = "hydrateType example_ellipse"
  note T = Object_shape_queries [of ?ob]
  note H = Object_shape_queries [of example_ellipse]
  from H have k: "GetType ?ob = EllipseObj" by (simp add: example_ellipse_def)
  have f: "Object.X ?ob = 10" "Object.Y ?ob = 20" "Object.Width ?ob = 4" "Object.Height ?ob = 6"
    by (simp_all add: hydrateType_def example_ellipse_def)
  from T k have "GetEllipse ?ob = (pixel_C (pixel_V 12 23) (5 / 2), None)"
    by (simp add: f)
  moreover from T k have "snd (GetPoint ?ob) = Some ErrInvalidObjectType" by simp
  moreover from T k have "snd (GetRect ?ob) = Some ErrInvalidObjectType" by simp
  ultimately show ?thesis using k by blast
qed

section \<open>Decoding point lists\<close>

lemma decodePoints_loop_Inr:
  "decodePoints_loop toks = Inr points \<longleftrightarrow> map decodePoints_point toks = map Inr points"
proof (induction toks arbitrary: points)
  case Nil
  then show ?case by auto
next
  case (Cons tok toks)
  show ?case
  proof (cases "decodePoints_point tok")
    case (Inl e)
    then show ?thesis by (cases points) auto
  next
    case (Inr p)
    show ?thesis
    proof (cases "decodePoints_loop toks")
      case (Inl e)
      have "map decodePoints_point toks \<noteq> map Inr ps" for ps
        using Cons.IH [of ps] Inl by simp
      with Inl Inr show ?thesis by (cases points) auto
    next
      case r: (Inr ps)
      then have "map decodePoints_point toks = map Inr ps" using Cons.IH by simp
      with Inr r show ?thesis by (cases points) (auto simp: inj_map_eq_map)
    qed
  qed
qed

lemma decodePoints_loop_first_error:
  assumes "\<forall>t\<in>set pre. \<exists>p. decodePoints_point t = Inr p"
    and "decodePoints_point tok = Inl e"
  shows "decodePoints_loop (pre @ tok # post) = Inl e"
  using assms by (induction pre) auto

lemma decodePoints_loop_fails:
  assumes "tok \<in> set toks" and "decodePoints_point tok = Inl e"
  shows "\<exists>e'. decodePoints_loop toks = Inl e'"
proof (cases "decodePoints_loop toks")
  case (Inl e')
  then show ?thesis by blast
next
  case (Inr points)
  then have "map decodePoints_point toks = map Inr points"
    by (simp add: decodePoints_loop_Inr)
  then have "decodePoints_point tok \<in> set (map Inr points)"
    using assms(1) by (metis image_eqI set_map)
  with assms(2) show ?thesis by auto
qed

lemma Atoi_error:
  "Atoi f = Inl e \<Longrightarrow> e = NumError ''Atoi'' f ErrSyntax \<or> e = NumError ''Atoi'' f ErrRange"
  by (auto simp: Atoi_def Let_def split: if_splits sum.splits strconv_err.splits)

lemma example_decodePoints:
  "decodePoints ''0,0 10,0 10,10'' =
     Inr [\<lparr>Point.X = 0, Point.Y = 0\<rparr>, \<lparr>Point.X = 10, Point.Y = 0\<rparr>, \<lparr>Point.X = 10, Point.Y = 10\<rparr>]"
  "decodePoints ''0,0 bad'' = Inl InvalidPointsFieldError"
  "decodePoints ''0,0 a,b'' = Inl (NumError ''Atoi'' ''a'' ErrSyntax)"
  by (simp_all add: decodePoints_def decodePoints_point_def Atoi_def isDigit_def digitVal_def)

text \<open>
  C8, as the claim states it, fails: a point string with two fields of which one is not a
  number makes \<open>decodePoints\<close> return the error of \<open>strconv.Atoi\<close>, not
  \<open>InvalidPointsFieldError\<close>.
\<close>

theorem decodePoints_counterexample:
  "decodePoints ''0,0 a,b'' = Inl (NumError ''Atoi'' ''a'' ErrSyntax) \<and>
   decodePoints ''0,0 a,b'' \<noteq> Inl InvalidPointsFieldError"
  by (simp add: example_decodePoints)

text \<open>
  C8, amended. \<open>decodePoints\<close> splits its input on single spaces and each point string on
  single commas. It returns points exactly when every point string has two fields that
  \<open>Atoi\<close> accepts, and then the points are in input order. Otherwise it fails with the
  error of the first point string that does not conform: \<open>InvalidPointsFieldError\<close> when
  that string does not have exactly two fields, and the \<open>NumError\<close> of \<open>Atoi\<close> for the
  first field that is not an integer when it has two.
\<close>

theorem decodePoints_errors:
  "(decodePoints s = Inr points \<longleftrightarrow>
      map decodePoints_point (Split s (CHR '' '')) = map Inr points)
   \<and> (\<forall>tok\<in>set (Split s (CHR '' '')). \<forall>e. decodePoints_point tok = Inl e \<longrightarrow>
         (\<exists>e'. decodePoints s = Inl e'))
   \<and> (\<forall>pre tok post e.
         Split s (CHR '' '') = pre @ tok # post \<and>
         (\<forall>t\<in>set pre. \<exists>p. decodePoints_point t = Inr p) \<and>
         decodePoints_point tok = Inl e \<longrightarrow>
         decodePoints s = Inl e)
   \<and> (\<forall>tok. length (Split tok (CHR '','')) \<noteq> 2 \<longrightarrow>
         decodePoints_point tok = Inl InvalidPointsFieldError)
   \<and> (\<forall>tok a b e. Split tok (CHR '','') = [a, b] \<and> Atoi a = Inl e \<longrightarrow>
         decodePoints_point tok = Inl e \<and>
         (e = NumError ''Atoi'' a ErrSyntax \<or> e = NumError ''Atoi'' a ErrRange))
   \<and> (\<forall>tok a b x e. Split tok (CHR '','') = [a, b] \<and> Atoi a = Inr x \<and> Atoi b = Inl e \<longrightarrow>
         decodePoints_point tok = Inl e \<and>
         (e = NumError ''Atoi'' b ErrSyntax \<or> e = NumError ''Atoi'' b ErrRange))
   \<and> (\<forall>tok a b x y. Split tok (CHR '','') = [a, b] \<and> Atoi a = Inr x \<and> Atoi b = Inr y \<longrightarrow>
         decodePoints_point tok = Inr \<lparr>Point.X = x, Point.Y = y\<rparr>)"
proof (intro conjI allI impI ballI)
  show "decodePoints s = Inr points \<longleftrightarrow>
      map decodePoints_point (Split s (CHR '' '')) = map Inr points"
    by (simp add: decodePoints_def decodePoints_loop_Inr)
next
  fix tok e assume "tok \<in> set (Split s (CHR '' ''))" "decodePoints_point tok = Inl e"
  then show "\<exists>e'. decodePoints s = Inl e'"
    unfolding decodePoints_def by (rule decodePoints_loop_fails)
next
  fix pre tok post e
  assume "Split s (CHR '' '') = pre @ tok # post \<and>
         (\<forall>t\<in>set pre. \<exists>p. decodePoints_point t = Inr p) \<and>
         decodePoints_point tok = Inl e"
  then show "decodePoints s = Inl e"
    by (simp add: decodePoints_def decodePoints_loop_first_error)
next
  fix tok assume "length (Split tok (CHR '','')) \<noteq> 2"
  then show "decodePoints_point tok = Inl InvalidPointsFieldError"
    by (simp add: decodePoints_point_def)
next
  fix tok a b e assume "Split tok (CHR '','') = [a, b] \<and> Atoi a = Inl e"
  then show "decodePoints_point tok = Inl e"
    and "e = NumError ''Atoi'' a ErrSyntax \<or> e = NumError ''Atoi'' a ErrRange"
    using Atoi_error [of a e] by (simp_all add: decodePoints_point_def)
next
  fix tok a b x e assume "Split tok (CHR '','') = [a, b] \<and> Atoi a = Inr x \<and> Atoi b = Inl e"
  then show "decodePoints_point tok = Inl e"
    and "e = NumError ''Atoi'' b ErrSyntax \<or> e = NumError ''Atoi'' b ErrRange"
    using Atoi_error [of b e] by (simp_all add: decodePoints_point_def)
next
  fix tok a b x y assume "Split tok (CHR '','') = [a, b] \<and> Atoi a = Inr x \<and> Atoi b = Inr y"
  then show "decodePoints_point tok = Inr \<lparr>Point.X = x, Point.Y = y\<rparr>"
    by (simp add: decodePoints_point_def)
qed

theorem decodePoints_errors_witness:
  "decodePoints ''0,0 10,0 10,10'' =
     Inr [\<lparr>Point.X = 0, Point.Y = 0\<rparr>, \<lparr>Point.X = 10, Point.Y = 0\<rparr>, \<lparr>Point.X = 10, Point.Y = 10\<rparr>] \<and>
   decodePoints ''0,0 bad'' = Inl InvalidPointsFieldError \<and>
   decodePoints ''0,0 a,b'' = Inl (NumError ''Atoi'' ''a'' ErrSyntax)"
proof -
  have atoi: "Atoi ''0'' = Inr 0" "Atoi ''10'' = Inr 10"
    "Atoi ''a'' = Inl (NumError ''Atoi'' ''a'' ErrSyntax)"
    by (simp_all add: Atoi_def isDigit_def digitVal_def)
  have sp: "Split ''0,0'' (CHR '','') = [''0'', ''0'']" "Split ''10,0'' (CHR '','') = [''10'', ''0'']"
    "Split ''10,10'' (CHR '','') = [''10'', ''10'']" "Split ''bad'' (CHR '','') = [''bad'']"
    "Split ''a,b'' (CHR '','') = [''a'', ''b'']"
    "Split ''0,0 10,0 10,10'' (CHR '' '') = [''0,0'', ''10,0'', ''10,10'']"
    "Split ''0,0 bad'' (CHR '' '') = [] @ ''0,0'' # [''bad'']"
    "Split ''0,0 a,b'' (CHR '' '') = [''0,0''] @ ''a,b'' # []"
    by simp_all
  let ?pts = "[\<lparr>Point.X = 0, Point.Y = 0\<rparr>, \<lparr>Point.X = 10, Point.Y = 0\<rparr>, \<lparr>Point.X = 10, Point.Y = 10\<rparr>]"
  note T = decodePoints_errors [of "''0,0 10,0 10,10''" ?pts]
  note ok = T [THEN conjunct2, THEN conjunct2, THEN conjunct2, THEN conjunct2, THEN conjunct2,
      THEN conjunct2, rule_format]
  have p: "decodePoints_point ''0,0'' = Inr \<lparr>Point.X = 0, Point.Y = 0\<rparr>"
    "decodePoints_point ''10,0'' = Inr \<lparr>Point.X = 10, Point.Y = 0\<rparr>"
    "decodePoints_point ''10,10'' = Inr \<lparr>Point.X = 10, Point.Y = 10\<rparr>"
    using ok [of "''0,0''" "''0''" "''0''" 0 0] ok [of "''10,0''" "''10''" "''0''" 10 0]
      ok [of "''10,10''" "''10''" "''10''" 10 10]
    by (simp_all add: sp atoi)
  have a: "decodePoints ''0,0 10,0 10,10'' = Inr ?pts"
    using T [THEN conjunct1] by (simp add: sp p)
  note B = decodePoints_errors [of "''0,0 bad''" "[]"]
  have bad: "decodePoints_point ''bad'' = Inl InvalidPointsFieldError"
    using B [THEN conjunct2, THEN conjunct2, THEN conjunct2, THEN conjunct1, rule_format,
        of "''bad''"]
    by (simp add: sp)
  have b: "decodePoints ''0,0 bad'' = Inl InvalidPointsFieldError"
    using B [THEN conjunct2, THEN conjunct2, THEN conjunct1, rule_format,
        of "[''0,0'']" "''bad''" "[]" InvalidPointsFieldError]
    by (simp add: p bad)
  note C = decodePoints_errors [of "''0,0 a,b''" "[]"]
  have ab: "decodePoints_point ''a,b'' = Inl (NumError ''Atoi'' ''a'' ErrSyntax)"
    using C [THEN conjunct2, THEN conjunct2, THEN conjunct2, THEN conjunct2, THEN conjunct1,
        rule_format, of "''a,b''" "''a''" "''b''" "NumError ''Atoi'' ''a'' ErrSyntax"]
    by (simp add: sp atoi)
  have c: "decodePoints ''0,0 a,b'' = Inl (NumError ''Atoi'' ''a'' ErrSyntax)"
    using C [THEN conjunct2, THEN conjunct2, THEN conjunct1, rule_format,
        of "[''0,0'']" "''a,b''" "[]" "NumError ''Atoi'' ''a'' ErrSyntax"]
    by (simp add: p ab)
  from a b c show ?thesis by blast
qed

section \<open>CSV and base64 payloads of the same grid\<close>





























end
